theory Spec2Isabelle
  imports Complex_Main
begin

section \<open>Values, errors and the node classes of KeePass.py\<close>

text \<open>
  The enums \<open>ItemType\<close> and \<open>ProcessType\<close> of the source, the exceptions its code can raise,
  and the dynamically typed values that the source stores in attributes: a node's name is a
  \<open>str\<close> in the common case, \<open>None\<close> when an XML element has no text, and whatever
  \<open>EntryString.__setattr__\<close> copies into it otherwise. \<open>DanglingRef\<close> is no Python
  exception: it is what the model answers for an address outside the object store, which
  no reference of a running program is.
\<close>

datatype ItemType = GROUP | ENTRY | STRING | MANAGER | AUTOTYPE

datatype ProcessType = ADD | EDIT

datatype error =
  TypeError | ValueError | AttributeError | IndexError | KeyError | IOError
  | ZeroDivisionError | OverflowError | RecursionError | DanglingRef

datatype pyval =
  PNone | PStr string | PInt int | PBool bool | PType ItemType | PRef nat | PManager

text \<open>
  A Python dict, whose insertion order the code relies on: an association list with
  \<open>dict_set\<close> for \<open>d[k] = v\<close> (an existing key keeps its position, a new key goes last),
  \<open>dict_get\<close> for the lookup and \<open>dict_keys\<close> for \<open>d.keys()\<close>.
\<close>

fun dict_set :: "string \<Rightarrow> pyval \<Rightarrow> (string \<times> pyval) list \<Rightarrow> (string \<times> pyval) list" where
  "dict_set k v [] = [(k, v)]"
| "dict_set k v (p # ps) = (if fst p = k then (k, v) # ps else p # dict_set k v ps)"

fun dict_get :: "(string \<times> pyval) list \<Rightarrow> string \<Rightarrow> pyval option" where
  "dict_get [] k = None"
| "dict_get (p # ps) k = (if fst p = k then Some (snd p) else dict_get ps k)"

definition dict_keys :: "(string \<times> pyval) list \<Rightarrow> string list" where
  "dict_keys d = map fst d"

text \<open>
  \<open>BaseKeePass\<close>: the back-reference to the parent (an address of the object store), the
  page cursor and the size. The field \<open>_root\<close> always refers to the one \<open>KeePass\<close> manager,
  which is the state record below, and \<open>type\<close> is fixed by the class, so neither is a field.
  \<open>KeeGroup\<close> and \<open>KeeEntry\<close> extend it as the classes do; their child lists hold
  addresses. \<open>AutoType\<close> objects are never shared nor mutated: they are values.
\<close>

record BaseKeePass =
  parent :: nat
  page :: int
  node_size :: int

record AutoType =
  enabled :: pyval
  dto :: pyval
  association :: "(pyval \<times> pyval) option"

record KeeGroup = BaseKeePass +
  g_uuid :: string
  g_name :: pyval
  g_notes :: pyval
  g_icon_id :: int
  g_items :: "nat list"

record KeeEntry = BaseKeePass +
  e_uuid :: string
  e_icon_id :: int
  e_items :: "nat list"
  e_name :: pyval
  e_autotype :: AutoType

text \<open>
  An \<open>EntryString\<close> is its attribute dictionary, because \<open>EntryString.__setattr__\<close>
  asks \<open>hasattr(self, 'key')\<close> and is entered for every attribute, whatever its name:
  the attributes are \<open>_root\<close>, \<open>_parent\<close>, \<open>page\<close>, \<open>size\<close>, \<open>type\<close>, \<open>key\<close>, \<open>value\<close>
  and any other name a caller assigns.
\<close>

datatype obj = Group KeeGroup | Entry KeeEntry | EString "(string \<times> pyval) list"

section \<open>Pagination (\<open>BaseKeePass.next_page\<close>, \<open>BaseKeePass.previous_page\<close>)\<close>

text \<open>
  \<open>NUMBER_OF_ENTRIES_ON_PAGE\<close> comes from \<open>src.settings\<close>, which is not part of the
  sources at hand: it is the parameter \<open>N\<close>.

  Python's \<open>/\<close> on two ints is true division: it raises \<open>ZeroDivisionError\<close> for a zero
  divisor and otherwise returns the double nearest to the exact quotient (ties to the even
  significand), or raises \<open>OverflowError\<close> when that quotient is beyond the doubles.
  \<open>float_of\<close> rounds a real to 53 significant bits, with the exponent of the least bit
  held at \<open>-1074\<close> for the subnormal numbers; \<open>truediv\<close> is the operator. A comparison of
  an int with a float and \<open>math.ceil\<close> of a float are exact in Python.
\<close>

definition round_half_even :: "real \<Rightarrow> int" where
  "round_half_even x =
     (let f = \<lfloor>x\<rfloor>; d = x - real_of_int f
      in if d < 1 / 2 then f else if 1 / 2 < d then f + 1 else if even f then f else f + 1)"

definition float_of :: "real \<Rightarrow> real" where
  "float_of x =
     (if x = 0 then 0
      else let e = max \<lfloor>log 2 \<bar>x\<bar>\<rfloor> (- 1022); u = 2 powr real_of_int (e - 52)
           in real_of_int (round_half_even (x / u)) * u)"

definition truediv :: "int \<Rightarrow> int \<Rightarrow> error + real" where
  "truediv a b =
     (if b = 0 then Inl ZeroDivisionError
      else let f = float_of (real_of_int a / real_of_int b)
           in if 2 powr 1024 \<le> \<bar>f\<bar> then Inl OverflowError else Inr f)"

definition next_page :: "int \<Rightarrow> 'a BaseKeePass_scheme \<Rightarrow> error + 'a BaseKeePass_scheme" where
  "next_page N self =
     (case truediv (node_size self) N of
        Inl e \<Rightarrow> Inl e
      | Inr f \<Rightarrow>
          if real_of_int (page self) < f
          then Inr (self\<lparr>page := page self + 1\<rparr>)
          else Inr (self\<lparr>page := 1\<rparr>))"

definition previous_page :: "int \<Rightarrow> 'a BaseKeePass_scheme \<Rightarrow> error + 'a BaseKeePass_scheme" where
  "previous_page N self =
     (if page self > 1 then Inr (self\<lparr>page := page self - 1\<rparr>)
      else (case truediv (node_size self) N of
              Inl e \<Rightarrow> Inl e
            | Inr f \<Rightarrow> Inr (self\<lparr>page := \<lceil>f\<rceil>\<rparr>)))"

section \<open>The edit draft (\<open>AddEditState\<close>)\<close>

text \<open>The draft: \<open>draft_fields\<close> is the dict \<open>fields\<close> of the source.\<close>

record AddEditState =
  item_type :: ItemType
  process_type :: ProcessType
  draft_fields :: "(string \<times> pyval) list"
  req_fields :: "string list"
  current_field :: string

definition get_rawstrings :: "AddEditState \<Rightarrow> (string \<times> pyval) list" where
  "get_rawstrings self = draft_fields self"

definition set_cur_field_value :: "pyval \<Rightarrow> AddEditState \<Rightarrow> AddEditState" where
  "set_cur_field_value v self = self\<lparr>draft_fields := dict_set (current_field self) v (draft_fields self)\<rparr>"

definition set_cur_field :: "string \<Rightarrow> AddEditState \<Rightarrow> AddEditState" where
  "set_cur_field field_name self = self\<lparr>current_field := field_name\<rparr>"

text \<open>
  The loop of \<open>next_field\<close>: \<open>finded\<close> is the flag, the result is the cursor when the loop
  ends (by \<open>break\<close> or by exhausting the keys).
\<close>

fun next_field_loop :: "bool \<Rightarrow> string \<Rightarrow> string list \<Rightarrow> string" where
  "next_field_loop finded cur [] = cur"
| "next_field_loop finded cur (field # rest) =
     (if finded then field
      else if cur = field then next_field_loop True cur rest
      else next_field_loop finded cur rest)"

definition next_field :: "AddEditState \<Rightarrow> AddEditState" where
  "next_field self =
     self\<lparr>current_field := next_field_loop False (current_field self) (dict_keys (draft_fields self))\<rparr>"

text \<open>
  The loop of \<open>prev_field\<close>, with the local \<open>prev_field\<close> as first argument;
  \<open>list(self.fields.keys())[0]\<close> raises \<open>IndexError\<close> on an empty dict.
\<close>

fun prev_field_loop :: "string \<Rightarrow> string \<Rightarrow> string list \<Rightarrow> string" where
  "prev_field_loop prev cur [] = cur"
| "prev_field_loop prev cur (field # rest) =
     (if cur = field then prev else prev_field_loop field cur rest)"

definition prev_field :: "AddEditState \<Rightarrow> error + AddEditState" where
  "prev_field self =
     (case dict_keys (draft_fields self) of
        [] \<Rightarrow> Inl IndexError
      | first # _ \<Rightarrow>
          Inr (self\<lparr>current_field :=
                 prev_field_loop first (current_field self) (dict_keys (draft_fields self))\<rparr>))"

text \<open>
  \<open>generate_password\<close>. The alphabet is the string literal of the source, character by
  character. \<open>random.sample(s, passlen)\<close> picks \<open>passlen\<close> pairwise different positions of
  \<open>s\<close> and returns the characters there, in the order picked: the positions are the
  argument \<open>picks\<close>, and \<open>sample_ok\<close> says what the library guarantees about them.
\<close>

definition alphabet :: string where
  "alphabet = ''abcdefghijklmnopqrstuvwxyz01234567890ABCDEFGHIJKLMNOPQRSTUVWXYZ''"

definition passlen :: nat where
  "passlen = 8"

definition sample_ok :: "string \<Rightarrow> nat \<Rightarrow> nat list \<Rightarrow> bool" where
  "sample_ok s k picks \<longleftrightarrow> length picks = k \<and> distinct picks \<and> list_all (\<lambda>i. i < length s) picks"

definition rsample :: "string \<Rightarrow> nat list \<Rightarrow> string" where
  "rsample s picks = map (\<lambda>i. s ! i) picks"

definition generate_password :: "nat list \<Rightarrow> AddEditState \<Rightarrow> AddEditState" where
  "generate_password picks self =
     (let gen_password = rsample alphabet picks;
          prev_field = current_field self
      in set_cur_field prev_field
           (set_cur_field_value (PStr gen_password) (set_cur_field ''Password'' self)))"

section \<open>Python builtins used by the constructors\<close>

text \<open>
  \<open>str(n)\<close> for an int and \<open>int(s)\<close> for a text. \<open>int\<close> strips white space, reads an
  optional sign and then decimal digits, where single underscores may stand between
  digits; anything else raises \<open>ValueError\<close>, and \<open>int(None)\<close> raises \<open>TypeError\<close>.
  Characters are bytes here, so only the ASCII digits and white space are recognised.
\<close>

definition digit_char :: "nat \<Rightarrow> char" where
  "digit_char d = ''0123456789'' ! d"

function digits :: "nat \<Rightarrow> string" where
  "digits n = (if n < 10 then [digit_char n] else digits (n div 10) @ [digit_char (n mod 10)])"
  by pat_completeness auto
termination
  by (relation "measure id") auto

declare digits.simps [simp del]

definition py_str :: "int \<Rightarrow> string" where
  "py_str i = (if i < 0 then CHR ''-'' # digits (nat (- i)) else digits (nat i))"

definition digit_val :: "char \<Rightarrow> nat option" where
  "digit_val c = map_of (zip ''0123456789'' [0, 1, 2, 3, 4, 5, 6, 7, 8, 9]) c"

definition is_space :: "char \<Rightarrow> bool" where
  "is_space c \<longleftrightarrow> c \<in> set [CHR '' '', CHR 0x09, CHR 0x0A, CHR 0x0B, CHR 0x0C, CHR 0x0D]"

definition strip :: "string \<Rightarrow> string" where
  "strip s = rev (dropWhile is_space (rev (dropWhile is_space s)))"

fun nat_of_digits :: "nat \<Rightarrow> bool \<Rightarrow> string \<Rightarrow> nat option" where
  "nat_of_digits acc prev_digit [] = (if prev_digit then Some acc else None)"
| "nat_of_digits acc prev_digit (c # cs) =
     (if c = CHR ''_'' then
        (if prev_digit \<and> cs \<noteq> [] then nat_of_digits acc False cs else None)
      else case digit_val c of
             None \<Rightarrow> None
           | Some d \<Rightarrow> nat_of_digits (10 * acc + d) True cs)"

definition py_int :: "string option \<Rightarrow> error + int" where
  "py_int x =
     (case x of
        None \<Rightarrow> Inl TypeError
      | Some s \<Rightarrow>
          (let t = strip s;
               neg = (t \<noteq> [] \<and> hd t = CHR ''-'');
               body = (if t \<noteq> [] \<and> (hd t = CHR ''-'' \<or> hd t = CHR ''+'') then tl t else t)
           in case nat_of_digits 0 False body of
                None \<Rightarrow> Inl ValueError
              | Some n \<Rightarrow> Inr (if neg then - int n else int n)))"

text \<open>
  \<open>str.lower\<close> on the ASCII letters, and the substring test \<open>w in s\<close>.
\<close>

definition lower_char :: "char \<Rightarrow> char" where
  "lower_char c =
     (case map_of (zip ''ABCDEFGHIJKLMNOPQRSTUVWXYZ'' ''abcdefghijklmnopqrstuvwxyz'') c of
        Some l \<Rightarrow> l
      | None \<Rightarrow> c)"

definition lower :: "string \<Rightarrow> string" where
  "lower s = map lower_char s"

fun starts_with :: "string \<Rightarrow> string \<Rightarrow> bool" where
  "starts_with [] s = True"
| "starts_with (c # w) [] = False"
| "starts_with (c # w) (d # s) = (c = d \<and> starts_with w s)"

fun py_in :: "string \<Rightarrow> string \<Rightarrow> bool" where
  "py_in w [] = (w = [])"
| "py_in w (c # s) = (starts_with w (c # s) \<or> py_in w s)"

text \<open>Sequencing of calls that may raise.\<close>

definition ebind :: "error + 'a \<Rightarrow> ('a \<Rightarrow> error + 'b) \<Rightarrow> error + 'b" where
  "ebind r f = (case r of Inl e \<Rightarrow> Inl e | Inr x \<Rightarrow> f x)"

section \<open>The manager and its object store\<close>

text \<open>
  The \<open>KeePass\<close> manager with the fields the operations below read or write. The objects
  live in \<open>heap\<close>, a list indexed by address; a constructor call appends its object, so
  the new address is the length of the list before. \<open>kp_name\<close> is the manager's own
  \<open>name\<close>. The fields \<open>path\<close>, \<open>user\<close>, \<open>kdb\<close> and \<open>_root_obj\<close> belong to the container
  and persistence collaborators; \<open>update_kdb_in_db\<close> writes only these, so the model of
  a method that ends with it leaves it out.
\<close>

record KeePass =
  heap :: "obj list"
  active_item :: "nat option"
  search_group :: "nat option"
  root_group :: "nat option"
  opened :: bool
  add_edit_state :: "AddEditState option"
  kp_name :: pyval

definition deref :: "KeePass \<Rightarrow> nat \<Rightarrow> obj option" where
  "deref st a = (if a < length (heap st) then Some (heap st ! a) else None)"

definition store :: "KeePass \<Rightarrow> nat \<Rightarrow> obj \<Rightarrow> KeePass" where
  "store st a ob = st\<lparr>heap := (heap st)[a := ob]\<rparr>"

definition alloc :: "KeePass \<Rightarrow> obj \<Rightarrow> nat \<times> KeePass" where
  "alloc st ob = (length (heap st), st\<lparr>heap := heap st @ [ob]\<rparr>)"

text \<open>Attribute reads that every class answers in its own way.\<close>

definition obj_name :: "obj \<Rightarrow> error + pyval" where
  "obj_name ob =
     (case ob of
        Group g \<Rightarrow> Inr (g_name g)
      | Entry e \<Rightarrow> Inr (e_name e)
      | EString d \<Rightarrow> (case dict_get d ''name'' of Some v \<Rightarrow> Inr v | None \<Rightarrow> Inl AttributeError))"

definition obj_type :: "obj \<Rightarrow> error + pyval" where
  "obj_type ob =
     (case ob of
        Group g \<Rightarrow> Inr (PType GROUP)
      | Entry e \<Rightarrow> Inr (PType ENTRY)
      | EString d \<Rightarrow> (case dict_get d ''type'' of Some v \<Rightarrow> Inr v | None \<Rightarrow> Inl AttributeError))"

definition obj_items :: "obj \<Rightarrow> error + nat list" where
  "obj_items ob =
     (case ob of
        Group g \<Rightarrow> Inr (g_items g)
      | Entry e \<Rightarrow> Inr (e_items e)
      | EString d \<Rightarrow> Inl AttributeError)"

definition get_parent :: "obj \<Rightarrow> error + pyval" where
  "get_parent ob =
     (case ob of
        Group g \<Rightarrow> Inr (PRef (parent g))
      | Entry e \<Rightarrow> Inr (PRef (parent e))
      | EString d \<Rightarrow> (case dict_get d ''_parent'' of Some v \<Rightarrow> Inr v | None \<Rightarrow> Inl AttributeError))"

subsection \<open>\<open>EntryString.__setattr__\<close>\<close>

text \<open>
  \<open>EntryString_setattr limit self name v\<close> is the assignment \<open>self.name = v\<close> on an
  \<open>EntryString\<close>. When the string has a \<open>key\<close> equal to \<open>"Title"\<close> it first assigns
  \<open>v\<close> to the \<open>name\<close> of its parent, for every attribute \<open>name\<close>, and then stores the
  attribute. If the parent is itself an \<open>EntryString\<close> that assignment enters
  \<open>__setattr__\<close> again: \<open>limit\<close> is the number of frames the interpreter still allows,
  and \<open>RecursionError\<close> is raised when they are used up.
\<close>

fun EntryString_setattr :: "nat \<Rightarrow> nat \<Rightarrow> string \<Rightarrow> pyval \<Rightarrow> KeePass \<Rightarrow> error + KeePass" where
  "EntryString_setattr 0 self name v st = Inl RecursionError"
| "EntryString_setattr (Suc limit) self name v st =
     (case deref st self of
        Some (EString d) \<Rightarrow>
          ebind
            (if dict_get d ''key'' = Some (PStr ''Title'') then
               (case dict_get d ''_parent'' of
                  None \<Rightarrow> Inl AttributeError
                | Some (PRef p) \<Rightarrow>
                    (case deref st p of
                       None \<Rightarrow> Inl DanglingRef
                     | Some (Group g) \<Rightarrow> Inr (store st p (Group (g\<lparr>g_name := v\<rparr>)))
                     | Some (Entry e) \<Rightarrow> Inr (store st p (Entry (e\<lparr>e_name := v\<rparr>)))
                     | Some (EString _) \<Rightarrow> EntryString_setattr limit p ''name'' v st)
                | Some PManager \<Rightarrow> Inr (st\<lparr>kp_name := v\<rparr>)
                | Some _ \<Rightarrow> Inl AttributeError)
             else Inr st)
            (\<lambda>st'. case deref st' self of
                     Some (EString d') \<Rightarrow> Inr (store st' self (EString (dict_set name v d')))
                   | _ \<Rightarrow> Inl DanglingRef)
      | Some _ \<Rightarrow> Inl TypeError
      | None \<Rightarrow> Inl DanglingRef)"

text \<open>
  \<open>ob.name = v\<close> for an object of any class: a plain store for a group or an entry,
  \<open>__setattr__\<close> for a string.
\<close>

definition set_name :: "nat \<Rightarrow> nat \<Rightarrow> pyval \<Rightarrow> KeePass \<Rightarrow> error + KeePass" where
  "set_name limit a v st =
     (case deref st a of
        None \<Rightarrow> Inl DanglingRef
      | Some (Group g) \<Rightarrow> Inr (store st a (Group (g\<lparr>g_name := v\<rparr>)))
      | Some (Entry e) \<Rightarrow> Inr (store st a (Entry (e\<lparr>e_name := v\<rparr>)))
      | Some (EString _) \<Rightarrow> EntryString_setattr limit a ''name'' v st)"


subsection \<open>Constructors\<close>

text \<open>
  \<open>KeeGroup.__init__\<close> and \<open>KeeEntry.__init__\<close>. The arguments \<open>icond_id\<close> and \<open>uuid\<close>
  are texts of XML elements (\<open>None\<close> for an element without text) or the defaults of the
  signature. An identifier that is missing or empty is replaced by a generated one,
  \<open>base64(uuid4())\<close>: \<open>gen a\<close> is the identifier generated for the object at address \<open>a\<close>.
  A group constructed with \<open>parent=None\<close> is its own parent.
\<close>

definition KeeGroup_init ::
  "(nat \<Rightarrow> string) \<Rightarrow> nat option \<Rightarrow> pyval \<Rightarrow> pyval \<Rightarrow> string option \<Rightarrow> string option \<Rightarrow> KeePass
     \<Rightarrow> error + nat \<times> KeePass" where
  "KeeGroup_init gen parent_arg name notes icond_id uuid st =
     (let self = length (heap st) in
      ebind (py_int icond_id) (\<lambda>icon.
        Inr (alloc st (Group
          \<lparr>parent = (case parent_arg of None \<Rightarrow> self | Some p \<Rightarrow> p),
           page = 1, node_size = 0,
           g_uuid = (case uuid of None \<Rightarrow> gen self | Some u \<Rightarrow> if u = [] then gen self else u),
           g_name = name, g_notes = notes, g_icon_id = icon, g_items = []\<rparr>))))"

definition KeeEntry_init ::
  "(nat \<Rightarrow> string) \<Rightarrow> nat \<Rightarrow> AutoType \<Rightarrow> string option \<Rightarrow> string option \<Rightarrow> KeePass
     \<Rightarrow> error + nat \<times> KeePass" where
  "KeeEntry_init gen parent_arg autotype icond_id uuid st =
     (let self = length (heap st) in
      ebind (py_int icond_id) (\<lambda>icon.
        Inr (alloc st (Entry
          \<lparr>parent = parent_arg, page = 1, node_size = 0,
           e_uuid = (case uuid of None \<Rightarrow> gen self | Some u \<Rightarrow> if u = [] then gen self else u),
           e_icon_id = icon, e_items = [], e_name = PStr [], e_autotype = autotype\<rparr>))))"

text \<open>
  \<open>EntryString.__init__\<close>: every assignment of the constructor, those of
  \<open>BaseKeePass.__init__\<close> included, goes through \<open>__setattr__\<close>, in the order of the
  source. Once \<open>key\<close> is stored the later ones (\<open>value\<close>, then \<open>type\<close>) reach the parent
  of a Title string; the last statement assigns the parent's name once more.
\<close>

definition EntryString_init ::
  "nat \<Rightarrow> nat \<Rightarrow> pyval \<Rightarrow> pyval \<Rightarrow> KeePass \<Rightarrow> error + nat \<times> KeePass" where
  "EntryString_init limit parent_arg key v st =
     (case alloc st (EString []) of (self, st0) \<Rightarrow>
      ebind (EntryString_setattr limit self ''_root'' PManager st0) (\<lambda>st1.
      ebind (EntryString_setattr limit self ''_parent'' (PRef parent_arg) st1) (\<lambda>st2.
      ebind (EntryString_setattr limit self ''page'' (PInt 1) st2) (\<lambda>st3.
      ebind (EntryString_setattr limit self ''size'' (PInt 0) st3) (\<lambda>st4.
      ebind (EntryString_setattr limit self ''type'' PNone st4) (\<lambda>st5.
      ebind (EntryString_setattr limit self ''key'' key st5) (\<lambda>st6.
      ebind (EntryString_setattr limit self ''value'' v st6) (\<lambda>st7.
      ebind (EntryString_setattr limit self ''type'' (PType STRING) st7) (\<lambda>st8.
      ebind (if key = PStr ''Title'' then set_name limit parent_arg v st8 else Inr st8) (\<lambda>st9.
        Inr (self, st9)))))))))))"

subsection \<open>\<open>append\<close>, \<open>update_item\<close>, \<open>get_item\<close>\<close>

text \<open>
  \<open>KeeGroup.append\<close> and \<open>KeeEntry.append\<close> with their \<open>isinstance\<close> checks, and \<open>append\<close>
  for the call \<open>x.append(item)\<close> on an object of unknown class.
\<close>

definition KeeGroup_append :: "nat \<Rightarrow> nat \<Rightarrow> KeePass \<Rightarrow> error + KeePass" where
  "KeeGroup_append self item st =
     (case deref st self of
        Some (Group g) \<Rightarrow>
          (case deref st item of
             None \<Rightarrow> Inl DanglingRef
           | Some (EString _) \<Rightarrow> Inl TypeError
           | Some _ \<Rightarrow>
               Inr (store st self
                      (Group (g\<lparr>g_items := g_items g @ [item], node_size := node_size g + 1\<rparr>))))
      | Some _ \<Rightarrow> Inl TypeError
      | None \<Rightarrow> Inl DanglingRef)"

definition KeeEntry_append :: "nat \<Rightarrow> nat \<Rightarrow> KeePass \<Rightarrow> error + KeePass" where
  "KeeEntry_append self item st =
     (case deref st self of
        Some (Entry e) \<Rightarrow>
          (case deref st item of
             None \<Rightarrow> Inl DanglingRef
           | Some (EString d) \<Rightarrow>
               (let e' = e\<lparr>e_items := e_items e @ [item], node_size := node_size e + 1\<rparr> in
                case dict_get d ''key'' of
                  None \<Rightarrow> Inl AttributeError
                | Some k \<Rightarrow>
                    if k = PStr ''Title'' then
                      (case dict_get d ''value'' of
                         None \<Rightarrow> Inl AttributeError
                       | Some v \<Rightarrow> Inr (store st self (Entry (e'\<lparr>e_name := v\<rparr>))))
                    else Inr (store st self (Entry e')))
           | Some _ \<Rightarrow> Inl TypeError)
      | Some _ \<Rightarrow> Inl TypeError
      | None \<Rightarrow> Inl DanglingRef)"

definition append :: "nat \<Rightarrow> nat \<Rightarrow> KeePass \<Rightarrow> error + KeePass" where
  "append self item st =
     (case deref st self of
        None \<Rightarrow> Inl DanglingRef
      | Some (Group _) \<Rightarrow> KeeGroup_append self item st
      | Some (Entry _) \<Rightarrow> KeeEntry_append self item st
      | Some (EString _) \<Rightarrow> Inl AttributeError)"

text \<open>
  The loop of \<open>KeeEntry.update_item\<close> over \<open>self.items\<close>: \<open>item.key\<close> raises
  \<open>AttributeError\<close> on an object without that attribute, and \<open>item.value = value\<close> is
  \<open>EntryString.__setattr__\<close>.
\<close>

fun update_item_loop :: "nat \<Rightarrow> string \<Rightarrow> pyval \<Rightarrow> nat list \<Rightarrow> KeePass \<Rightarrow> error + KeePass" where
  "update_item_loop limit key v [] st = Inr st"
| "update_item_loop limit key v (item # rest) st =
     (case deref st item of
        None \<Rightarrow> Inl DanglingRef
      | Some (EString d) \<Rightarrow>
          (case dict_get d ''key'' of
             None \<Rightarrow> Inl AttributeError
           | Some k \<Rightarrow>
               if k = PStr key then
                 (case EntryString_setattr limit item ''value'' v st of
                    Inl e \<Rightarrow> Inl e
                  | Inr st' \<Rightarrow> update_item_loop limit key v rest st')
               else update_item_loop limit key v rest st)
      | Some _ \<Rightarrow> Inl AttributeError)"

definition update_item :: "nat \<Rightarrow> nat \<Rightarrow> string option \<Rightarrow> pyval \<Rightarrow> KeePass \<Rightarrow> error + KeePass" where
  "update_item limit self key v st =
     (case deref st self of
        Some (Entry e) \<Rightarrow>
          (case key of
             None \<Rightarrow> Inr st
           | Some k \<Rightarrow> update_item_loop limit k v (e_items e) st)
      | Some _ \<Rightarrow> Inl AttributeError
      | None \<Rightarrow> Inl DanglingRef)"

fun get_item_loop :: "string \<Rightarrow> nat list \<Rightarrow> KeePass \<Rightarrow> error + nat option" where
  "get_item_loop key [] st = Inr None"
| "get_item_loop key (item # rest) st =
     (case deref st item of
        None \<Rightarrow> Inl DanglingRef
      | Some (EString d) \<Rightarrow>
          (case dict_get d ''key'' of
             None \<Rightarrow> Inl AttributeError
           | Some k \<Rightarrow> if k = PStr key then Inr (Some item) else get_item_loop key rest st)
      | Some _ \<Rightarrow> Inl AttributeError)"

definition get_item :: "nat \<Rightarrow> string option \<Rightarrow> KeePass \<Rightarrow> error + nat option" where
  "get_item self key st =
     (case deref st self of
        Some (Entry e) \<Rightarrow>
          (case key of
             None \<Rightarrow> Inr None
           | Some k \<Rightarrow> get_item_loop k (e_items e) st)
      | Some _ \<Rightarrow> Inl AttributeError
      | None \<Rightarrow> Inl DanglingRef)"

subsection \<open>\<open>activate\<close>, \<open>deactivate\<close>, \<open>delete\<close>\<close>

definition activate :: "nat \<Rightarrow> KeePass \<Rightarrow> KeePass" where
  "activate self st = st\<lparr>active_item := Some self\<rparr>"

definition deactivate :: "'a BaseKeePass_scheme \<Rightarrow> KeePass \<Rightarrow> KeePass" where
  "deactivate self st =
     (let st' = (if active_item st = search_group st then st\<lparr>search_group := None\<rparr> else st)
      in st'\<lparr>active_item := Some (parent self)\<rparr>)"

text \<open>
  \<open>self._parent.items.remove(self)\<close>: \<open>list.remove\<close> deletes the first occurrence and
  raises \<open>ValueError\<close> when there is none; a string has no \<open>items\<close>.
\<close>

definition remove_from_parent :: "nat \<Rightarrow> nat \<Rightarrow> KeePass \<Rightarrow> error + KeePass" where
  "remove_from_parent p self st =
     (case deref st p of
        None \<Rightarrow> Inl DanglingRef
      | Some (Group g) \<Rightarrow>
          if self \<in> set (g_items g)
          then Inr (store st p (Group (g\<lparr>g_items := remove1 self (g_items g)\<rparr>)))
          else Inl ValueError
      | Some (Entry e) \<Rightarrow>
          if self \<in> set (e_items e)
          then Inr (store st p (Entry (e\<lparr>e_items := remove1 self (e_items e)\<rparr>)))
          else Inl ValueError
      | Some (EString _) \<Rightarrow> Inl AttributeError)"

text \<open>
  \<open>KeeGroup.delete\<close> and \<open>KeeEntry.delete\<close> have the same body. \<open>EntryString\<close> inherits
  \<open>BaseKeePass.delete\<close>, whose \<open>raise NotImplemented(...)\<close> calls a value that is not
  callable: \<open>TypeError\<close>.
\<close>

definition delete :: "nat \<Rightarrow> KeePass \<Rightarrow> error + KeePass" where
  "delete self st =
     (case deref st self of
        None \<Rightarrow> Inl DanglingRef
      | Some (Group g) \<Rightarrow> remove_from_parent (parent g) self (deactivate g st)
      | Some (Entry e) \<Rightarrow> remove_from_parent (parent e) self (deactivate e st)
      | Some (EString _) \<Rightarrow> Inl TypeError)"

text \<open>
  The pagination methods on an object of the store. On a group or an entry they update
  the record; on a string, \<open>self.page += 1\<close> and \<open>self.page = 1\<close> are assignments through
  \<open>__setattr__\<close>.
\<close>

definition EntryString_next_page :: "nat \<Rightarrow> int \<Rightarrow> nat \<Rightarrow> KeePass \<Rightarrow> error + KeePass" where
  "EntryString_next_page limit N self st =
     (case deref st self of
        Some (EString d) \<Rightarrow>
          (case (dict_get d ''page'', dict_get d ''size'') of
             (Some (PInt p), Some (PInt s)) \<Rightarrow>
               (case truediv s N of
                  Inl e \<Rightarrow> Inl e
                | Inr f \<Rightarrow>
                    if real_of_int p < f
                    then EntryString_setattr limit self ''page'' (PInt (p + 1)) st
                    else EntryString_setattr limit self ''page'' (PInt 1) st)
           | (None, _) \<Rightarrow> Inl AttributeError
           | (_, None) \<Rightarrow> Inl AttributeError
           | _ \<Rightarrow> Inl TypeError)
      | Some _ \<Rightarrow> Inl TypeError
      | None \<Rightarrow> Inl DanglingRef)"

definition EntryString_previous_page :: "nat \<Rightarrow> int \<Rightarrow> nat \<Rightarrow> KeePass \<Rightarrow> error + KeePass" where
  "EntryString_previous_page limit N self st =
     (case deref st self of
        Some (EString d) \<Rightarrow>
          (case dict_get d ''page'' of
             None \<Rightarrow> Inl AttributeError
           | Some (PInt p) \<Rightarrow>
               if p > 1 then EntryString_setattr limit self ''page'' (PInt (p - 1)) st
               else (case dict_get d ''size'' of
                       None \<Rightarrow> Inl AttributeError
                     | Some (PInt s) \<Rightarrow>
                         (case truediv s N of
                            Inl e \<Rightarrow> Inl e
                          | Inr f \<Rightarrow> EntryString_setattr limit self ''page'' (PInt \<lceil>f\<rceil>) st)
                     | Some _ \<Rightarrow> Inl TypeError)
           | Some _ \<Rightarrow> Inl TypeError)
      | Some _ \<Rightarrow> Inl TypeError
      | None \<Rightarrow> Inl DanglingRef)"

definition node_next_page :: "nat \<Rightarrow> int \<Rightarrow> nat \<Rightarrow> KeePass \<Rightarrow> error + KeePass" where
  "node_next_page limit N self st =
     (case deref st self of
        None \<Rightarrow> Inl DanglingRef
      | Some (Group g) \<Rightarrow> ebind (next_page N g) (\<lambda>g'. Inr (store st self (Group g')))
      | Some (Entry e) \<Rightarrow> ebind (next_page N e) (\<lambda>e'. Inr (store st self (Entry e')))
      | Some (EString _) \<Rightarrow> EntryString_next_page limit N self st)"

definition node_previous_page :: "nat \<Rightarrow> int \<Rightarrow> nat \<Rightarrow> KeePass \<Rightarrow> error + KeePass" where
  "node_previous_page limit N self st =
     (case deref st self of
        None \<Rightarrow> Inl DanglingRef
      | Some (Group g) \<Rightarrow> ebind (previous_page N g) (\<lambda>g'. Inr (store st self (Group g')))
      | Some (Entry e) \<Rightarrow> ebind (previous_page N e) (\<lambda>e'. Inr (store st self (Entry e')))
      | Some (EString _) \<Rightarrow> EntryString_previous_page limit N self st)"

section \<open>Search and the overlay (\<open>KeePass.search_item\<close>, \<open>KeePass.search\<close>)\<close>

text \<open>
  \<open>word.lower() in item.name.lower()\<close>: a name that is not a \<open>str\<close> has no \<open>lower\<close>.
\<close>

definition name_matches :: "string \<Rightarrow> obj \<Rightarrow> error + bool" where
  "name_matches word ob =
     ebind (obj_name ob) (\<lambda>n.
       case n of
         PStr s \<Rightarrow> Inr (py_in (lower word) (lower s))
       | _ \<Rightarrow> Inl AttributeError)"

text \<open>
  The nested function \<open>__inner_find\<close> and its loop over \<open>parent_item.items\<close>;
  \<open>finded\<close> is the list \<open>finded_items\<close> that both append to. Each nested call of
  \<open>__inner_find\<close> takes one of the \<open>limit\<close> frames the interpreter still allows.
\<close>

fun inner_find :: "nat \<Rightarrow> KeePass \<Rightarrow> string \<Rightarrow> nat \<Rightarrow> nat list \<Rightarrow> error + nat list"
  and inner_find_loop :: "nat \<Rightarrow> KeePass \<Rightarrow> string \<Rightarrow> nat list \<Rightarrow> nat list \<Rightarrow> error + nat list" where
  "inner_find 0 st word parent_item finded = Inl RecursionError"
| "inner_find (Suc limit) st word parent_item finded =
     (case deref st parent_item of
        None \<Rightarrow> Inl DanglingRef
      | Some ob \<Rightarrow>
          (case name_matches word ob of
             Inl e \<Rightarrow> Inl e
           | Inr m \<Rightarrow>
               (case obj_items ob of
                  Inl e \<Rightarrow> Inl e
                | Inr its \<Rightarrow>
                    inner_find_loop limit st word its
                      (if m then finded @ [parent_item] else finded))))"
| "inner_find_loop limit st word [] finded = Inr finded"
| "inner_find_loop limit st word (item # rest) finded =
     (case deref st item of
        None \<Rightarrow> Inl DanglingRef
      | Some ob \<Rightarrow>
          (case obj_type ob of
             Inl e \<Rightarrow> Inl e
           | Inr ty \<Rightarrow>
               (case (if ty = PType GROUP then inner_find limit st word item finded
                      else Inr finded) of
                  Inl e \<Rightarrow> Inl e
                | Inr finded' \<Rightarrow>
                    (case name_matches word ob of
                       Inl e \<Rightarrow> Inl e
                     | Inr m \<Rightarrow>
                         inner_find_loop limit st word rest
                           (if m then finded' @ [item] else finded')))))"

definition search_item :: "nat \<Rightarrow> string \<Rightarrow> KeePass \<Rightarrow> error + nat list" where
  "search_item limit word st =
     (if \<not> opened st then Inl IOError
      else case root_group st of
             None \<Rightarrow> Inl AttributeError
           | Some r \<Rightarrow> inner_find limit st word r [])"

text \<open>
  The inner loop of \<open>search\<close>, \<open>temp_entry.append(string)\<close> for every string of the
  matched entry, and its outer loop over the match list, which builds a new entry for
  every match that is a \<open>KeeEntry\<close> and skips every other match.
\<close>

fun append_all :: "nat \<Rightarrow> nat list \<Rightarrow> KeePass \<Rightarrow> error + KeePass" where
  "append_all self [] st = Inr st"
| "append_all self (item # rest) st =
     (case append self item st of
        Inl e \<Rightarrow> Inl e
      | Inr st' \<Rightarrow> append_all self rest st')"

fun search_loop :: "(nat \<Rightarrow> string) \<Rightarrow> nat \<Rightarrow> nat list \<Rightarrow> KeePass \<Rightarrow> error + KeePass" where
  "search_loop gen sg [] st = Inr st"
| "search_loop gen sg (item # rest) st =
     (case deref st item of
        None \<Rightarrow> Inl DanglingRef
      | Some (Entry e) \<Rightarrow>
          (case KeeEntry_init gen sg
                  \<lparr>enabled = PBool True, dto = PStr ''0'', association = None\<rparr>
                  (Some ''0'') (Some []) st of
             Inl err \<Rightarrow> Inl err
           | Inr (temp_entry, st1) \<Rightarrow>
               (case append_all temp_entry (e_items e) st1 of
                  Inl err \<Rightarrow> Inl err
                | Inr st2 \<Rightarrow>
                    (case append sg temp_entry st2 of
                       Inl err \<Rightarrow> Inl err
                     | Inr st3 \<Rightarrow> search_loop gen sg rest st3)))
      | Some _ \<Rightarrow> search_loop gen sg rest st)"

definition search :: "nat \<Rightarrow> (nat \<Rightarrow> string) \<Rightarrow> string \<Rightarrow> KeePass \<Rightarrow> error + KeePass" where
  "search limit gen word st =
     ebind (search_item limit word st) (\<lambda>finded_items.
     ebind (KeeGroup_init gen (active_item st) (PStr ''Search'') (PStr [])
              (Some ''37'') (Some []) st) (\<lambda>(sg, st1).
     ebind (search_loop gen sg finded_items (st1\<lparr>search_group := Some sg\<rparr>)) (\<lambda>st2.
       Inr (activate sg st2))))"

section \<open>Starting and finishing an edit (\<open>AddEditState.__init__\<close>, \<open>KeePass.finish_add_edit\<close>)\<close>

text \<open>
  \<open>AddEditState.__init__\<close>, with \<open>obj\<close> an address or \<open>None\<close>. For an entry under edit
  every field is read with \<open>obj.get_item(field_name).value\<close>, which raises
  \<open>AttributeError\<close> when the entry has no such string. When the type is neither \<open>ENTRY\<close>
  nor \<open>GROUP\<close> the constructor sets no \<open>fields\<close>, and \<open>get_message\<close>, which
  \<open>start_add_edit\<close> calls right after it, raises \<open>AttributeError\<close>.
\<close>

fun prefill :: "nat \<Rightarrow> string list \<Rightarrow> (string \<times> pyval) list \<Rightarrow> KeePass
    \<Rightarrow> error + (string \<times> pyval) list" where
  "prefill ob [] fs st = Inr fs"
| "prefill ob (field_name # rest) fs st =
     (case get_item ob (Some field_name) st of
        Inl e \<Rightarrow> Inl e
      | Inr None \<Rightarrow> Inl AttributeError
      | Inr (Some s) \<Rightarrow>
          (case deref st s of
             Some (EString d) \<Rightarrow>
               (case dict_get d ''value'' of
                  None \<Rightarrow> Inl AttributeError
                | Some v \<Rightarrow> prefill ob rest (dict_set field_name v fs) st)
           | _ \<Rightarrow> Inl AttributeError))"

definition obj_notes :: "obj \<Rightarrow> error + pyval" where
  "obj_notes ob =
     (case ob of
        Group g \<Rightarrow> Inr (g_notes g)
      | Entry e \<Rightarrow> Inl AttributeError
      | EString d \<Rightarrow> (case dict_get d ''notes'' of Some v \<Rightarrow> Inr v | None \<Rightarrow> Inl AttributeError))"

definition start_add_edit :: "ItemType option \<Rightarrow> nat option \<Rightarrow> KeePass \<Rightarrow> error + KeePass" where
  "start_add_edit item_type_arg obj_arg st =
     ebind
       (if item_type_arg \<noteq> Some ENTRY \<and> item_type_arg \<noteq> Some GROUP then
          (case obj_arg of
             None \<Rightarrow> Inl KeyError
           | Some a \<Rightarrow>
               (case deref st a of
                  None \<Rightarrow> Inl DanglingRef
                | Some ob \<Rightarrow> ebind (obj_type ob) (\<lambda>ty. Inr (ty, EDIT))))
        else Inr (PType (the item_type_arg), ADD))
       (\<lambda>(ty, process).
          if ty = PType ENTRY then
            (let fs = [(''Title'', PNone), (''UserName'', PNone), (''Password'', PNone),
                       (''URL'', PNone), (''Notes'', PNone)] in
             ebind (case obj_arg of
                      None \<Rightarrow> Inr fs
                    | Some a \<Rightarrow> prefill a (dict_keys fs) fs st) (\<lambda>fs'.
               Inr (st\<lparr>add_edit_state := Some
                     \<lparr>item_type = ENTRY, process_type = process, draft_fields = fs',
                      req_fields = [''Title'', ''Password''], current_field = ''Title''\<rparr>\<rparr>)))
          else if ty = PType GROUP then
            (let fs = [(''Name'', PNone), (''Notes'', PNone)] in
             ebind (case obj_arg of
                      None \<Rightarrow> Inr fs
                    | Some a \<Rightarrow>
                        (case deref st a of
                           None \<Rightarrow> Inl DanglingRef
                         | Some ob \<Rightarrow>
                             ebind (obj_name ob) (\<lambda>n.
                             ebind (obj_notes ob) (\<lambda>nt.
                               Inr (dict_set ''Notes'' nt (dict_set ''Name'' n fs)))))) (\<lambda>fs'.
               Inr (st\<lparr>add_edit_state := Some
                     \<lparr>item_type = GROUP, process_type = process, draft_fields = fs',
                      req_fields = [''Name''], current_field = ''Name''\<rparr>\<rparr>)))
          else Inl AttributeError)"

text \<open>
  The \<open>while\<close> loop of \<open>finish_add_edit\<close> that walks from the active item up the parent
  references until it stands on an object whose \<open>type\<close> is \<open>GROUP\<close>. Nothing bounds the
  walk, so the function is partial: on a cycle of parents without a group it has no value.
\<close>

partial_function (option) parent_group :: "KeePass \<Rightarrow> pyval \<Rightarrow> (error + nat) option" where
  "parent_group st group_item =
     (case group_item of
        PRef a \<Rightarrow>
          (case deref st a of
             None \<Rightarrow> Some (Inl DanglingRef)
           | Some ob \<Rightarrow>
               (case obj_type ob of
                  Inl e \<Rightarrow> Some (Inl e)
                | Inr ty \<Rightarrow>
                    if ty = PType GROUP then Some (Inr a)
                    else (case get_parent ob of
                            Inl e \<Rightarrow> Some (Inl e)
                          | Inr p \<Rightarrow> parent_group st p)))
      | _ \<Rightarrow> Some (Inl AttributeError))"

text \<open>
  The loops of \<open>finish_add_edit\<close> over \<open>get_rawstrings()\<close>: the strings of a new entry,
  the \<open>update_item\<close> calls on an edited entry, the search for the key \<open>Name\<close>, and the
  assignments to an edited group, which compare the key with \<open>'Name'\<close> and with \<open>'Note'\<close>.
  \<open>notes\<close> is an attribute of groups; assigned on an entry it becomes an attribute that
  nothing in the source reads, and the entry of the model stays as it is.
\<close>

fun add_strings :: "nat \<Rightarrow> nat \<Rightarrow> (string \<times> pyval) list \<Rightarrow> KeePass \<Rightarrow> error + KeePass" where
  "add_strings limit entry [] st = Inr st"
| "add_strings limit entry ((key, v) # rest) st =
     (case EntryString_init limit entry (PStr key) v st of
        Inl e \<Rightarrow> Inl e
      | Inr (s, st1) \<Rightarrow>
          (case append entry s st1 of
             Inl e \<Rightarrow> Inl e
           | Inr st2 \<Rightarrow> add_strings limit entry rest st2))"

fun update_strings :: "nat \<Rightarrow> nat \<Rightarrow> (string \<times> pyval) list \<Rightarrow> KeePass \<Rightarrow> error + KeePass" where
  "update_strings limit entry [] st = Inr st"
| "update_strings limit entry ((key, v) # rest) st =
     (case update_item limit entry (Some key) v st of
        Inl e \<Rightarrow> Inl e
      | Inr st1 \<Rightarrow> update_strings limit entry rest st1)"

fun group_name_of :: "pyval \<Rightarrow> (string \<times> pyval) list \<Rightarrow> pyval" where
  "group_name_of gr_name [] = gr_name"
| "group_name_of gr_name ((key, v) # rest) =
     group_name_of (if key = ''Name'' then v else gr_name) rest"

definition set_notes :: "nat \<Rightarrow> nat \<Rightarrow> pyval \<Rightarrow> KeePass \<Rightarrow> error + KeePass" where
  "set_notes limit a v st =
     (case deref st a of
        None \<Rightarrow> Inl DanglingRef
      | Some (Group g) \<Rightarrow> Inr (store st a (Group (g\<lparr>g_notes := v\<rparr>)))
      | Some (Entry e) \<Rightarrow> Inr st
      | Some (EString _) \<Rightarrow> EntryString_setattr limit a ''notes'' v st)"

fun edit_group :: "nat \<Rightarrow> nat \<Rightarrow> (string \<times> pyval) list \<Rightarrow> KeePass \<Rightarrow> error + KeePass" where
  "edit_group limit grp [] st = Inr st"
| "edit_group limit grp ((key, v) # rest) st =
     (case (if key = ''Name'' then set_name limit grp v st else Inr st) of
        Inl e \<Rightarrow> Inl e
      | Inr st1 \<Rightarrow>
          (case (if key = ''Note'' then set_notes limit grp v st1 else Inr st1) of
             Inl e \<Rightarrow> Inl e
           | Inr st2 \<Rightarrow> edit_group limit grp rest st2))"

text \<open>
  The body of the \<open>if\<close> of \<open>finish_add_edit\<close> once the enclosing group is known, up to
  \<open>group_item.activate()\<close>.
\<close>

definition commit :: "nat \<Rightarrow> (nat \<Rightarrow> string) \<Rightarrow> AddEditState \<Rightarrow> nat \<Rightarrow> KeePass \<Rightarrow> error + KeePass" where
  "commit limit gen draft group_item st =
     ebind
       (if item_type draft = ENTRY then
          (if process_type draft = ADD then
             ebind (KeeEntry_init gen group_item
                      \<lparr>enabled = PStr ''True'', dto = PStr ''0'', association = None\<rparr>
                      (Some ''0'') (Some []) st) (\<lambda>(entry, st1).
             ebind (add_strings limit entry (get_rawstrings draft) st1) (\<lambda>st2.
               append group_item entry st2))
           else
             (case active_item st of
                None \<Rightarrow> Inl AttributeError
              | Some entry \<Rightarrow> update_strings limit entry (get_rawstrings draft) st))
        else if item_type draft = GROUP then
          (let gr_name = group_name_of (PStr ''None'') (get_rawstrings draft) in
           if process_type draft = ADD then
             ebind (KeeGroup_init gen (Some group_item) gr_name (PStr [])
                      (Some ''37'') (Some []) st) (\<lambda>(grp, st1).
               append group_item grp st1)
           else
             (case active_item st of
                None \<Rightarrow> Inl AttributeError
              | Some grp \<Rightarrow> edit_group limit grp (get_rawstrings draft) st))
        else Inr st)
       (\<lambda>st'. Inr (activate group_item st'))"

text \<open>
  \<open>finish_add_edit\<close>. \<open>create_state\<close> is the flag of the user record that
  \<open>self.get_user().create_state\<close> reads. The draft is dropped at the end, whether or not
  the commit ran.
\<close>

definition finish_add_edit ::
  "nat \<Rightarrow> (nat \<Rightarrow> string) \<Rightarrow> bool \<Rightarrow> KeePass \<Rightarrow> (error + KeePass) option" where
  "finish_add_edit limit gen create_state st =
     (case add_edit_state st of
        None \<Rightarrow> Some (Inr (st\<lparr>add_edit_state := None\<rparr>))
      | Some draft \<Rightarrow>
          if create_state then
            (case parent_group st (case active_item st of None \<Rightarrow> PNone | Some a \<Rightarrow> PRef a) of
               None \<Rightarrow> None
             | Some (Inl e) \<Rightarrow> Some (Inl e)
             | Some (Inr group_item) \<Rightarrow>
                 Some (ebind (commit limit gen draft group_item st)
                         (\<lambda>st'. Inr (st'\<lparr>add_edit_state := None\<rparr>))))
          else Some (Inr (st\<lparr>add_edit_state := None\<rparr>)))"

section \<open>The XML codec (\<open>get_xml_element\<close>, \<open>generate_root\<close>, \<open>_init_root_group\<close>)\<close>

text \<open>
  The codec reads and builds the document without relying on shared objects, so it is
  modelled on the document as a value: a \<open>tree\<close> is a group or an entry with the fields
  that the codec reads or writes, the children in place of their addresses. An \<open>xtext\<close> is
  a string or \<open>None\<close>, which is what the fields of the program hold and what the \<open>text\<close>
  of an lxml element holds. An lxml element is its tag, its text and its children.
\<close>

type_synonym xtext = "string option"

datatype xml = Element (tag: string) (text_of: xtext) (children: "xml list")

record autotype_t =
  at_enabled :: xtext
  at_dto :: xtext
  at_association :: "(xtext \<times> xtext) option"

datatype tree =
  TGroup (t_uuid: string) (t_name: xtext) (t_notes: xtext) (t_icon_id: int) (t_items: "tree list")
| TEntry (t_uuid: string) (t_icon_id: int) (t_name: xtext) (t_strings: "(xtext \<times> xtext) list")
    (t_autotype: autotype_t)

text \<open>
  The assignment \<open>el.text = s\<close>. lxml stores \<open>None\<close> as no text. It encodes a \<open>str\<close> in
  UTF-8 and raises \<open>ValueError\<close> ("All strings must be XML compatible: Unicode or ASCII,
  no NULL bytes or control characters") unless every byte below \<open>0x80\<close> is a tab, a line
  feed, a carriage return or at least \<open>0x20\<close> (\<open>xml_char_ch\<close>, libxml2's \<open>xmlIsChar_ch\<close>), and
  no three bytes from a byte above \<open>0x7F\<close> on are the encoding of \<open>U+FFFE\<close>
  (\<open>0xEFBFBE = 15712190\<close>) or \<open>U+FFFF\<close> or lie in the surrogate block from
  \<open>0xEDA080 = 15573120\<close> to \<open>0xEDBFBF = 15581119\<close>. The strings of the model are the UTF-8
  bytes of the strings of the program.
\<close>

definition xml_char_ch :: "nat \<Rightarrow> bool" where
  "xml_char_ch c = ((9 \<le> c \<and> c \<le> 10) \<or> c = 13 \<or> 32 \<le> c)"

fun xml_compatible :: "string \<Rightarrow> bool" where
  "xml_compatible (a # b # c # s) =
     ((if 128 \<le> (of_char a :: nat)
       then (let next3 = of_char a * 65536 + of_char b * 256 + (of_char c :: nat)
             in next3 \<noteq> 15712190 \<and> next3 \<noteq> 15712191 \<and>
                \<not> (15573120 \<le> next3 \<and> next3 \<le> 15581119))
       else xml_char_ch (of_char a)) \<and>
      xml_compatible (b # c # s))"
| "xml_compatible (a # s) =
     ((128 \<le> (of_char a :: nat) \<or> xml_char_ch (of_char a)) \<and> xml_compatible s)"
| "xml_compatible [] = True"

definition set_text :: "xtext \<Rightarrow> error + xtext" where
  "set_text txt =
     (case txt of
        None \<Rightarrow> Inr None
      | Some s \<Rightarrow> if xml_compatible s then Inr (Some s) else Inl ValueError)"

text \<open>
  \<open>text_element t txt\<close> is \<open>SubElement(parent, t)\<close> followed by the assignment of \<open>txt\<close>
  to its text. The children of an element are built one after the other, and the first
  exception ends the call: \<open>collect\<close> runs through them in the order of the source.
\<close>

definition text_element :: "string \<Rightarrow> xtext \<Rightarrow> error + xml" where
  "text_element t txt = ebind (set_text txt) (\<lambda>x. Inr (Element t x []))"

fun collect :: "(error + 'a) list \<Rightarrow> error + 'a list" where
  "collect [] = Inr []"
| "collect (r # rs) =
     (case r of
        Inl e \<Rightarrow> Inl e
      | Inr x \<Rightarrow> (case collect rs of Inl e \<Rightarrow> Inl e | Inr xs \<Rightarrow> Inr (x # xs)))"

text \<open>
  The \<open>Times\<close> element, the same in \<open>KeeGroup.get_xml_element\<close> and
  \<open>KeeEntry.get_xml_element\<close>. The clock is read once for every node; \<open>now\<close> is the
  formatted reading, and since no decoder reads \<open>Times\<close> one reading stands for all.
\<close>

definition times_xml :: "string \<Rightarrow> error + xml" where
  "times_xml now =
     ebind (collect
       [text_element ''CreationTime'' (Some now),
        text_element ''LastModificationTime'' (Some now),
        text_element ''LastAccessTime'' (Some now),
        text_element ''ExpiryTime'' (Some now),
        text_element ''Expires'' (Some ''False''),
        text_element ''UsageCount'' (Some ''0''),
        text_element ''LocationChanged'' (Some now)])
       (\<lambda>cs. Inr (Element ''Times'' None cs))"

text \<open>\<open>EntryString.get_xml_element\<close> and \<open>AutoType.get_xml_element\<close>.\<close>

definition string_xml :: "xtext \<times> xtext \<Rightarrow> error + xml" where
  "string_xml s =
     ebind (collect [text_element ''Key'' (fst s), text_element ''Value'' (snd s)])
       (\<lambda>cs. Inr (Element ''String'' None cs))"

definition autotype_xml :: "autotype_t \<Rightarrow> error + xml" where
  "autotype_xml a =
     ebind (collect
       ([text_element ''Enabled'' (at_enabled a),
         text_element ''DataTransferObfuscation'' (at_dto a)] @
        (case at_association a of
           None \<Rightarrow> []
         | Some (window, key_sec) \<Rightarrow>
             [ebind (collect [text_element ''Window'' window,
                              text_element ''KeystrokeSequence'' key_sec])
                (\<lambda>cs. Inr (Element ''Association'' None cs))])))
       (\<lambda>cs. Inr (Element ''AutoType'' None cs))"

text \<open>\<open>KeeGroup.get_xml_element\<close> and \<open>KeeEntry.get_xml_element\<close>.\<close>

fun get_xml_element :: "string \<Rightarrow> tree \<Rightarrow> error + xml" where
  "get_xml_element now (TGroup uuid name notes icon_id its) =
     ebind (collect
       ([text_element ''UUID'' (Some uuid),
         text_element ''Name'' name,
         text_element ''Notes'' (Some []),
         text_element ''IconID'' (Some (py_str icon_id)),
         times_xml now,
         text_element ''IsExpanded'' (Some ''True''),
         text_element ''DefaultAutoTypeSequence'' (Some []),
         text_element ''EnableAutoType'' (Some ''null''),
         text_element ''EnableSearching'' (Some ''null''),
         text_element ''LastTopVisibleEntry'' (Some ''AAAAAAAAAAAAAAAAAAAAAA=='')] @
        map (get_xml_element now) its))
       (\<lambda>cs. Inr (Element ''Group'' None cs))"
| "get_xml_element now (TEntry uuid icon_id name strings autotype) =
     ebind (collect
       ([text_element ''UUID'' (Some uuid),
         text_element ''IconID'' (Some (py_str icon_id)),
         Inr (Element ''ForegroundColor'' None []),
         Inr (Element ''BackgroundColor'' None []),
         Inr (Element ''OverrideURL'' None []),
         Inr (Element ''Tags'' None []),
         times_xml now] @
        map string_xml strings @
        [autotype_xml autotype, Inr (Element ''History'' None [])]))
       (\<lambda>cs. Inr (Element ''Entry'' None cs))"

text \<open>
  \<open>objectify.fromstring(etree.tounicode(base), ...)\<close>: the document is written out and
  parsed again. The parsed document has the elements of the one written; an element
  written with the empty text has no text when it is read.
\<close>

fun reparse :: "xml \<Rightarrow> xml" where
  "reparse (Element t txt cs) =
     Element t (if txt = Some [] then None else txt) (map reparse cs)"

text \<open>
  Reading the document: \<open>x.findall(t)\<close> are the children of \<open>x\<close> with tag \<open>t\<close>,
  \<open>x.T.text\<close> is the text of the first child with tag \<open>T\<close> and raises \<open>AttributeError\<close>
  when there is none.
\<close>

definition findall :: "string \<Rightarrow> xml \<Rightarrow> xml list" where
  "findall t x = filter (\<lambda>c. tag c = t) (children x)"

definition child :: "string \<Rightarrow> xml \<Rightarrow> error + xml" where
  "child t x = (case findall t x of [] \<Rightarrow> Inl AttributeError | c # _ \<Rightarrow> Inr c)"

definition child_text :: "string \<Rightarrow> xml \<Rightarrow> error + xtext" where
  "child_text t x = ebind (child t x) (\<lambda>c. Inr (text_of c))"

text \<open>
  \<open>generate_root\<close>, from the old document \<open>_root_obj\<close> and the root group; its result
  is the new \<open>_root_obj\<close>. \<open>find("Meta")\<close> is the first child with tag \<open>Meta\<close>, or
  \<open>None\<close>, and appending \<open>None\<close> raises \<open>TypeError\<close>; the root group is encoded after
  that.
\<close>

definition generate_root :: "xml \<Rightarrow> string \<Rightarrow> tree \<Rightarrow> error + xml" where
  "generate_root root_obj now root_group_t =
     (case findall ''Meta'' root_obj of
        [] \<Rightarrow> Inl TypeError
      | meta # _ \<Rightarrow>
          ebind (get_xml_element now root_group_t) (\<lambda>group.
            Inr (reparse (Element ''KeePassFile'' None
                   [meta, Element ''Root'' None
                            [group, Element ''DeletedObjects'' None []]]))))"

text \<open>
  The name of an entry after its strings were constructed and appended in turn: the
  constructor leaves \<open>""\<close>, and every string with key \<open>"Title"\<close> assigns its value.
\<close>

fun title_name :: "xtext \<Rightarrow> (xtext \<times> xtext) list \<Rightarrow> xtext" where
  "title_name n [] = n"
| "title_name n (s # ss) = title_name (if fst s = Some ''Title'' then snd s else n) ss"

fun decode_strings :: "xml list \<Rightarrow> error + (xtext \<times> xtext) list" where
  "decode_strings [] = Inr []"
| "decode_strings (s # ss) =
     (case child_text ''Key'' s of
        Inl e \<Rightarrow> Inl e
      | Inr k \<Rightarrow>
          (case child_text ''Value'' s of
             Inl e \<Rightarrow> Inl e
           | Inr v \<Rightarrow>
               (case decode_strings ss of
                  Inl e \<Rightarrow> Inl e
                | Inr rest \<Rightarrow> Inr ((k, v) # rest))))"

definition decode_autotype :: "xml \<Rightarrow> error + autotype_t" where
  "decode_autotype item =
     ebind (child ''AutoType'' item) (\<lambda>a.
     ebind (case findall ''Association'' a of
              [] \<Rightarrow> Inr None
            | asoc # _ \<Rightarrow>
                ebind (child_text ''Window'' asoc) (\<lambda>w.
                ebind (child_text ''KeystrokeSequence'' asoc) (\<lambda>k.
                  Inr (Some (w, k))))) (\<lambda>asoc.
     ebind (child_text ''Enabled'' a) (\<lambda>en.
     ebind (child_text ''DataTransferObfuscation'' a) (\<lambda>d.
       Inr \<lparr>at_enabled = en, at_dto = d, at_association = asoc\<rparr>))))"

text \<open>
  The identifier a constructor keeps: the text given, or a generated one when the text is
  missing or empty. \<open>n\<close> counts the objects constructed so far, which is the address of
  the next one in a store that was empty when the document was opened.
\<close>

definition uuid_or_gen :: "(nat \<Rightarrow> string) \<Rightarrow> nat \<Rightarrow> xtext \<Rightarrow> string" where
  "uuid_or_gen gen n u = (case u of None \<Rightarrow> gen n | Some s \<Rightarrow> if s = [] then gen n else s)"

definition decode_entry :: "(nat \<Rightarrow> string) \<Rightarrow> nat \<Rightarrow> xml \<Rightarrow> error + tree \<times> nat" where
  "decode_entry gen n item =
     ebind (decode_autotype item) (\<lambda>autotype.
     ebind (child_text ''IconID'' item) (\<lambda>icon_text.
     ebind (child_text ''UUID'' item) (\<lambda>uuid.
     ebind (py_int icon_text) (\<lambda>icon.
     ebind (decode_strings (findall ''String'' item)) (\<lambda>strings.
       Inr (TEntry (uuid_or_gen gen n uuid) icon (title_name (Some []) strings) strings autotype,
            n + 1 + length strings))))))"

fun decode_entries :: "(nat \<Rightarrow> string) \<Rightarrow> nat \<Rightarrow> xml list \<Rightarrow> error + tree list \<times> nat" where
  "decode_entries gen n [] = Inr ([], n)"
| "decode_entries gen n (item # rest) =
     (if tag item = ''Entry'' then
        (case decode_entry gen n item of
           Inl e \<Rightarrow> Inl e
         | Inr (t, n1) \<Rightarrow>
             (case decode_entries gen n1 rest of
                Inl e \<Rightarrow> Inl e
              | Inr (ts, n2) \<Rightarrow> Inr (t # ts, n2)))
      else decode_entries gen n rest)"

text \<open>
  \<open>inner_init\<close>: the loop runs over \<open>findall('Group') + findall('Entry')\<close>, so it
  constructs the child groups first, each with its own subtree, and the child entries
  after them. \<open>decode_group\<close> constructs the group for a \<open>Group\<close> element and fills it;
  \<open>decode_groups\<close> is the first half of the loop.
\<close>

fun decode_group :: "(nat \<Rightarrow> string) \<Rightarrow> nat \<Rightarrow> xml \<Rightarrow> error + tree \<times> nat"
  and decode_groups :: "(nat \<Rightarrow> string) \<Rightarrow> nat \<Rightarrow> xml list \<Rightarrow> error + tree list \<times> nat" where
  "decode_group gen n (Element t txt cs) =
     (case child_text ''Name'' (Element t txt cs) of
        Inl e \<Rightarrow> Inl e
      | Inr name \<Rightarrow>
     (case child_text ''Notes'' (Element t txt cs) of
        Inl e \<Rightarrow> Inl e
      | Inr notes \<Rightarrow>
     (case child_text ''IconID'' (Element t txt cs) of
        Inl e \<Rightarrow> Inl e
      | Inr icon_text \<Rightarrow>
     (case child_text ''UUID'' (Element t txt cs) of
        Inl e \<Rightarrow> Inl e
      | Inr uuid \<Rightarrow>
     (case py_int icon_text of
        Inl e \<Rightarrow> Inl e
      | Inr icon \<Rightarrow>
     (case decode_groups gen (n + 1) cs of
        Inl e \<Rightarrow> Inl e
      | Inr (gs, n1) \<Rightarrow>
     (case decode_entries gen n1 cs of
        Inl e \<Rightarrow> Inl e
      | Inr (es, n2) \<Rightarrow>
          Inr (TGroup (uuid_or_gen gen n uuid) name notes icon (gs @ es), n2))))))))"
| "decode_groups gen n [] = Inr ([], n)"
| "decode_groups gen n (item # rest) =
     (if tag item = ''Group'' then
        (case decode_group gen n item of
           Inl e \<Rightarrow> Inl e
         | Inr (t, n1) \<Rightarrow>
             (case decode_groups gen n1 rest of
                Inl e \<Rightarrow> Inl e
              | Inr (ts, n2) \<Rightarrow> Inr (t # ts, n2)))
      else decode_groups gen n rest)"

text \<open>
  \<open>_init_root_group\<close> on the document \<open>_root_obj\<close>: \<open>find('./Root/Group')\<close> is the first
  \<open>Group\<close> child of a \<open>Root\<close> child, and \<open>None\<close> when there is none.
\<close>

definition init_root_group :: "(nat \<Rightarrow> string) \<Rightarrow> bool \<Rightarrow> xml \<Rightarrow> error + tree" where
  "init_root_group gen is_open root_obj =
     (if \<not> is_open then Inl IOError
      else case concat (map (findall ''Group'') (findall ''Root'' root_obj)) of
             [] \<Rightarrow> Inl AttributeError
           | g # _ \<Rightarrow> ebind (decode_group gen 0 g) (\<lambda>(t, n). Inr t))"
















definition example_blank :: tree where
  "example_blank =
     TGroup ''R'' (Some ''Root'') None 37
       [TEntry ''E'' 0 (Some [])
          [(Some ''Title'', Some []), (Some ''Password'', Some ''x'')]
          \<lparr>at_enabled = Some ''True'', at_dto = Some ''0'', at_association = None\<rparr>]"

definition example_blank_read_back :: tree where
  "example_blank_read_back =
     TGroup ''R'' (Some ''Root'') None 37
       [TEntry ''E'' 0 None
          [(Some ''Title'', None), (Some ''Password'', Some ''x'')]
          \<lparr>at_enabled = Some ''True'', at_dto = Some ''0'', at_association = None\<rparr>]"

definition example_control :: tree where
  "example_control =
     TGroup ''R'' (Some ''Root'') None 37
       [TEntry ''E'' 0 (Some [CHR ''a'', CHR 0x0B, CHR ''b''])
          [(Some ''Title'', Some [CHR ''a'', CHR 0x0B, CHR ''b'']), (Some ''Password'', Some ''x'')]
          \<lparr>at_enabled = Some ''True'', at_dto = Some ''0'', at_association = None\<rparr>]"

definition example_no_id :: tree where
  "example_no_id = TGroup [] (Some ''Root'') None 37 []"

definition example_now :: string where
  "example_now = ''2026-01-01T00:00:00Z''"

definition example_root_obj :: xml where
  "example_root_obj =
     Element ''KeePassFile'' None
       [Element ''Meta'' None [Element ''Generator'' (Some ''KeePass'') []],
        Element ''Root'' None []]"


section \<open>Predicates and an example document for the statements\<close>

text \<open>
  \<open>read_name st a\<close> is the read \<open>x.name\<close> on the object at address \<open>a\<close>. \<open>is_node\<close>
  holds for the address of a group or an entry. \<open>is_field_string\<close> holds for the
  address of a string as the constructor leaves it: with a \<open>key\<close>, and with a group or
  an entry as parent. \<open>title_child st e s\<close> says that \<open>s\<close> is a string with key
  \<open>"Title"\<close> whose parent reference is \<open>e\<close>. \<open>rename v ob\<close> is a group or entry \<open>ob\<close>
  with \<open>v\<close> as its name.
\<close>

definition read_name :: "KeePass \<Rightarrow> nat \<Rightarrow> error + pyval" where
  "read_name st a = (case deref st a of None \<Rightarrow> Inl DanglingRef | Some ob \<Rightarrow> obj_name ob)"

definition is_node :: "KeePass \<Rightarrow> nat \<Rightarrow> bool" where
  "is_node st p =
     (case deref st p of Some (Group _) \<Rightarrow> True | Some (Entry _) \<Rightarrow> True | _ \<Rightarrow> False)"

definition is_field_string :: "KeePass \<Rightarrow> nat \<Rightarrow> bool" where
  "is_field_string st a =
     (case deref st a of
        Some (EString d) \<Rightarrow>
          dict_get d ''key'' \<noteq> None \<and>
          (case dict_get d ''_parent'' of Some (PRef p) \<Rightarrow> is_node st p | _ \<Rightarrow> False)
      | _ \<Rightarrow> False)"

definition title_child :: "KeePass \<Rightarrow> nat \<Rightarrow> nat \<Rightarrow> bool" where
  "title_child st e s =
     (case deref st s of
        Some (EString d) \<Rightarrow>
          dict_get d ''key'' = Some (PStr ''Title'') \<and> dict_get d ''_parent'' = Some (PRef e)
      | _ \<Rightarrow> False)"

definition rename :: "pyval \<Rightarrow> obj \<Rightarrow> obj" where
  "rename v ob =
     (case ob of
        Group g \<Rightarrow> Group (g\<lparr>g_name := v\<rparr>)
      | Entry e \<Rightarrow> Entry (e\<lparr>e_name := v\<rparr>)
      | EString d \<Rightarrow> EString d)"

text \<open>
  The document of the end-to-end scenario: the root group \<open>Root\<close> at address 0 holds one
  entry at address 1, whose strings are \<open>Title = site\<close> at address 2 and \<open>Password = x\<close>
  at address 3. The root group is active and nothing is searched or edited.
\<close>

definition example_doc :: KeePass where
  "example_doc =
     \<lparr>heap =
        [Group \<lparr>parent = 0, page = 1, node_size = 1, g_uuid = ''R'', g_name = PStr ''Root'',
                g_notes = PNone, g_icon_id = 37, g_items = [1]\<rparr>,
         Entry \<lparr>parent = 0, page = 1, node_size = 2, e_uuid = ''E'', e_icon_id = 0,
                e_items = [2, 3], e_name = PStr ''site'',
                e_autotype = \<lparr>enabled = PStr ''True'', dto = PStr ''0'', association = None\<rparr>\<rparr>,
         EString [(''_root'', PManager), (''_parent'', PRef 1), (''page'', PInt 1),
                  (''size'', PInt 0), (''type'', PType STRING), (''key'', PStr ''Title''),
                  (''value'', PStr ''site'')],
         EString [(''_root'', PManager), (''_parent'', PRef 1), (''page'', PInt 1),
                  (''size'', PInt 0), (''type'', PType STRING), (''key'', PStr ''Password''),
                  (''value'', PStr ''x'')]],
      active_item = Some 0, search_group = None, root_group = Some 0, opened = True,
      add_edit_state = None, kp_name = PStr ''KeePassManager''\<rparr>"

text \<open>
  The example document with the name of its entry set to \<open>None\<close>, as the assignment
  \<open>entry.name = None\<close> leaves it.
\<close>

definition example_unnamed :: KeePass where
  "example_unnamed =
     store example_doc 1
       (Entry \<lparr>parent = 0, page = 1, node_size = 2, e_uuid = ''E'', e_icon_id = 0,
               e_items = [2, 3], e_name = PNone,
               e_autotype = \<lparr>enabled = PStr ''True'', dto = PStr ''0'', association = None\<rparr>\<rparr>)"

text \<open>
  For the overlay: \<open>entry_items st a\<close> is the child list of the entry at address \<open>a\<close>
  (\<open>None\<close> when \<open>a\<close> is not an entry), \<open>is_entry\<close> the test \<open>isinstance(item, KeeEntry)\<close>.
  \<open>is_plain_string\<close> holds for the address of a string with the attributes \<open>key\<close> and
  \<open>value\<close>, which every constructed string has, and \<open>matched_ok\<close> for a match that is an
  entry all of whose children are such strings, or a group.
\<close>

definition entry_items :: "KeePass \<Rightarrow> nat \<Rightarrow> nat list option" where
  "entry_items st a = (case deref st a of Some (Entry en) \<Rightarrow> Some (e_items en) | _ \<Rightarrow> None)"

definition is_entry :: "KeePass \<Rightarrow> nat \<Rightarrow> bool" where
  "is_entry st a = (case deref st a of Some (Entry en) \<Rightarrow> True | _ \<Rightarrow> False)"

definition is_plain_string :: "KeePass \<Rightarrow> nat \<Rightarrow> bool" where
  "is_plain_string st a =
     (case deref st a of
        Some (EString d) \<Rightarrow> dict_get d ''key'' \<noteq> None \<and> dict_get d ''value'' \<noteq> None
      | _ \<Rightarrow> False)"

definition matched_ok :: "KeePass \<Rightarrow> nat \<Rightarrow> bool" where
  "matched_ok st m =
     (case deref st m of
        Some (Entry en) \<Rightarrow> list_all (is_plain_string st) (e_items en)
      | Some (Group g) \<Rightarrow> True
      | _ \<Rightarrow> False)"

text \<open>
  The entry that \<open>search\<close> constructs for a match, \<open>KeeEntry(self, self.search_group,
  AutoType(True))\<close>, at address \<open>t\<close>; the strings reachable from the children of a
  group, and the strings of the entries of a match list.
\<close>

definition overlay_entry :: "(nat \<Rightarrow> string) \<Rightarrow> nat \<Rightarrow> nat \<Rightarrow> KeeEntry" where
  "overlay_entry gen sg t =
     \<lparr>parent = sg, page = 1, node_size = 0, e_uuid = gen t, e_icon_id = 0, e_items = [],
      e_name = PStr [],
      e_autotype = \<lparr>enabled = PBool True, dto = PStr ''0'', association = None\<rparr>\<rparr>"

definition items_or_none :: "nat list option \<Rightarrow> nat list" where
  "items_or_none x = (case x of None \<Rightarrow> [] | Some its \<Rightarrow> its)"

definition overlay_children :: "KeePass \<Rightarrow> nat \<Rightarrow> nat list" where
  "overlay_children st sg = (case deref st sg of Some (Group g) \<Rightarrow> g_items g | _ \<Rightarrow> [])"

definition overlay_strings :: "KeePass \<Rightarrow> nat \<Rightarrow> nat list" where
  "overlay_strings st sg =
     (case deref st sg of
        Some (Group g) \<Rightarrow> concat (map (\<lambda>t. items_or_none (entry_items st t)) (g_items g))
      | _ \<Rightarrow> [])"

definition matched_strings :: "KeePass \<Rightarrow> nat list \<Rightarrow> nat list" where
  "matched_strings st ms =
     concat (map (\<lambda>m. items_or_none (entry_items st m)) (filter (is_entry st) ms))"

text \<open>
  For the examples, a generator that yields the same identifier every time, and the state
  after the search for \<open>t\<close> in the example document: the overlay group at address 4
  and its one entry at address 5, with the overlay as search group and active node.
\<close>

definition example_gen :: "nat \<Rightarrow> string" where
  "example_gen a = ''fresh''"

definition example_overlay :: KeePass where
  "example_overlay =
     example_doc\<lparr>heap := heap example_doc @
        [Group \<lparr>parent = 0, page = 1, node_size = 1, g_uuid = ''fresh'',
                g_name = PStr ''Search'', g_notes = PStr [], g_icon_id = 37, g_items = [5]\<rparr>,
         Entry \<lparr>parent = 4, page = 1, node_size = 2, e_uuid = ''fresh'', e_icon_id = 0,
                e_items = [2, 3], e_name = PStr ''site'',
                e_autotype = \<lparr>enabled = PBool True, dto = PStr ''0'', association = None\<rparr>\<rparr>],
      active_item := Some 4, search_group := Some 4\<rparr>"

section \<open>Properties\<close>

lemma ebind_Inr [simp]: "ebind (Inr x) f = f x"
  by (simp add: ebind_def)

lemma ebind_Inl [simp]: "ebind (Inl e) f = Inl e"
  by (simp add: ebind_def)

subsection \<open>Python's true division on quotients of small ints\<close>

text \<open>
  Rounding to the nearest double moves a quotient of two ints below \<open>2 ^ 53\<close> across no
  integer: an integer of that size is a double, and a quotient \<open>a / b\<close> that is no integer
  is at least \<open>1 / \<bar>b\<bar>\<close> away from every integer, which is more than the rounding error
  \<open>\<bar>a / b\<bar> * 2 powr (- 53)\<close>.
\<close>

lemma round_half_even_err: "\<bar>real_of_int (round_half_even x) - x\<bar> \<le> 1 / 2"
  unfolding round_half_even_def Let_def by (simp; linarith)

lemma round_half_even_int: "round_half_even (real_of_int m) = m"
  by (simp add: round_half_even_def)

lemma float_of_0: "float_of 0 = 0"
  by (simp add: float_of_def)

lemma float_of_normal:
  assumes "x \<noteq> 0" and "- 1022 \<le> \<lfloor>log 2 \<bar>x\<bar>\<rfloor>"
  shows "float_of x =
     real_of_int (round_half_even (x / 2 powr real_of_int (\<lfloor>log 2 \<bar>x\<bar>\<rfloor> - 52)))
       * 2 powr real_of_int (\<lfloor>log 2 \<bar>x\<bar>\<rfloor> - 52)"
proof -
  have m: "max \<lfloor>log 2 \<bar>x\<bar>\<rfloor> (- 1022) = \<lfloor>log 2 \<bar>x\<bar>\<rfloor>"
    using assms(2) by (rule max_absorb1)
  show ?thesis
    unfolding float_of_def Let_def m using assms(1) by (simp only: if_False)
qed

lemma float_of_err:
  assumes x: "2 powr (- 1022) \<le> \<bar>x\<bar>"
  shows "\<bar>float_of x - x\<bar> \<le> \<bar>x\<bar> * 2 powr (- 53)"
proof -
  define e where "e = \<lfloor>log 2 \<bar>x\<bar>\<rfloor>"
  define u where "u = 2 powr real_of_int (e - 52)"
  have pos: "0 < \<bar>x\<bar>"
    using x by (smt (verit) powr_gt_zero)
  then have x0: "x \<noteq> 0" by simp
  have "- 1022 \<le> log 2 \<bar>x\<bar>"
    using x pos by (simp add: le_log_iff)
  then have e_low: "- 1022 \<le> e"
    unfolding e_def by (simp add: le_floor_iff)
  have "2 powr real_of_int e \<le> \<bar>x\<bar>"
    using pos floor_log_eq_powr_iff [of "\<bar>x\<bar>" 2 e] by (simp add: e_def)
  moreover have "u / 2 = 2 powr real_of_int e * 2 powr (- 53)"
    unfolding u_def by (simp add: powr_diff powr_minus divide_simps)
  ultimately have half: "u / 2 \<le> \<bar>x\<bar> * 2 powr (- 53)"
    by (simp add: mult_right_mono)
  have u: "0 < u" by (simp add: u_def)
  have f: "float_of x = real_of_int (round_half_even (x / u)) * u"
    using float_of_normal [OF x0] e_low unfolding e_def u_def by simp
  have "\<bar>real_of_int (round_half_even (x / u)) - x / u\<bar> \<le> 1 / 2"
    by (rule round_half_even_err)
  then have "\<bar>real_of_int (round_half_even (x / u)) - x / u\<bar> * u \<le> 1 / 2 * u"
    using u by (simp add: mult_right_mono)
  moreover have "\<bar>real_of_int (round_half_even (x / u)) - x / u\<bar> * u = \<bar>float_of x - x\<bar>"
  proof -
    have "float_of x - x = (real_of_int (round_half_even (x / u)) - x / u) * u"
      using u by (simp add: f left_diff_distrib)
    then have "\<bar>float_of x - x\<bar> = \<bar>real_of_int (round_half_even (x / u)) - x / u\<bar> * \<bar>u\<bar>"
      by (simp only: abs_mult)
    then show ?thesis using u by simp
  qed
  ultimately have "\<bar>float_of x - x\<bar> \<le> u / 2" by simp
  with half show ?thesis by linarith
qed

lemma float_of_int_exact:
  assumes m: "\<bar>m\<bar> < 2 ^ 53"
  shows "float_of (real_of_int m) = real_of_int m"
proof (cases "m = 0")
  case True
  then show ?thesis by (simp add: float_of_def)
next
  case False
  define x where "x = real_of_int m"
  define e where "e = \<lfloor>log 2 \<bar>x\<bar>\<rfloor>"
  have x1: "1 \<le> \<bar>x\<bar>" using False unfolding x_def by linarith
  then have pos: "0 < \<bar>x\<bar>" by linarith
  have "0 \<le> log 2 \<bar>x\<bar>" using x1 pos by (simp add: zero_le_log_cancel_iff)
  then have e0: "0 \<le> e" unfolding e_def by simp
  have "real_of_int \<bar>m\<bar> < real_of_int (2 ^ 53)" using m by (simp only: of_int_less_iff)
  then have "\<bar>x\<bar> < 2 ^ 53" unfolding x_def by simp
  then have "\<bar>x\<bar> < 2 powr 53" by simp
  then have "log 2 \<bar>x\<bar> < 53" using pos by (simp add: log_less_iff)
  then have e52: "e \<le> 52" unfolding e_def by (simp add: floor_le_iff)
  define k where "k = nat (52 - e)"
  have u: "2 powr real_of_int (e - 52) = 1 / 2 ^ k"
  proof (cases "e = 52")
    case True
    then show ?thesis by (simp add: k_def)
  next
    case False
    with e52 have "e - 52 < 0" by simp
    then show ?thesis using powr_int [of 2 "e - 52"] by (simp add: k_def)
  qed
  have "x / (1 / 2 ^ k) = real_of_int (m * 2 ^ k)"
    by (simp add: x_def)
  then have r: "round_half_even (x / (1 / 2 ^ k)) = m * 2 ^ k"
    by (simp only: round_half_even_int)
  have x0: "x \<noteq> 0" using pos by simp
  have "- 1022 \<le> \<lfloor>log 2 \<bar>x\<bar>\<rfloor>" using e0 unfolding e_def by linarith
  from float_of_normal [OF x0 this]
  have "float_of x = real_of_int (round_half_even (x / (1 / 2 ^ k))) * (1 / 2 ^ k)"
    unfolding e_def [symmetric] u .
  also have "\<dots> = x" by (simp only: r) (simp add: x_def)
  finally show ?thesis by (simp add: x_def)
qed


lemma float_of_quotient:
  assumes b: "b \<noteq> 0" and a: "\<bar>a\<bar> < 2 ^ 53" and bb: "\<bar>b\<bar> < 2 ^ 53"
  shows "\<bar>float_of (real_of_int a / real_of_int b)\<bar> < 2 powr 1024"
    and "(real_of_int z < float_of (real_of_int a / real_of_int b))
           = (real_of_int z < real_of_int a / real_of_int b)"
    and "(float_of (real_of_int a / real_of_int b) \<le> real_of_int z)
           = (real_of_int a / real_of_int b \<le> real_of_int z)"
proof -
  define q where "q = real_of_int a / real_of_int b"
  define d where "d = 1 / \<bar>real_of_int b\<bar>"
  have b1: "1 \<le> \<bar>real_of_int b\<bar>" using b by linarith
  have ra: "\<bar>real_of_int a\<bar> < 2 ^ 53"
  proof -
    have "real_of_int \<bar>a\<bar> < real_of_int (2 ^ 53)" using a by (simp only: of_int_less_iff)
    then show ?thesis by simp
  qed
  have rb: "\<bar>real_of_int b\<bar> < 2 ^ 53"
  proof -
    have "real_of_int \<bar>b\<bar> < real_of_int (2 ^ 53)" using bb by (simp only: of_int_less_iff)
    then show ?thesis by simp
  qed
  have d: "0 < d" "d \<le> 1" using b1 by (simp_all add: d_def)
  have absq: "\<bar>q\<bar> = \<bar>real_of_int a\<bar> * d"
    by (simp add: q_def d_def abs_divide)
  have qa: "\<bar>q\<bar> < 2 ^ 53"
  proof -
    have "\<bar>real_of_int a\<bar> * d \<le> \<bar>real_of_int a\<bar> * 1"
      using d by (intro mult_left_mono) simp_all
    with absq ra show ?thesis by linarith
  qed
  have goal: "\<bar>float_of q\<bar> < 2 powr 1024 \<and>
        (real_of_int z < float_of q) = (real_of_int z < q) \<and>
        (float_of q \<le> real_of_int z) = (q \<le> real_of_int z)"
  proof (cases "b dvd a")
    case True
    then have qi: "q = real_of_int (a div b)"
      by (simp add: q_def real_of_int_div)
    have "real_of_int \<bar>a div b\<bar> < real_of_int (2 ^ 53)"
      using qa unfolding qi by simp
    then have "\<bar>a div b\<bar> < 2 ^ 53" by (simp only: of_int_less_iff)
    then have "float_of q = q" unfolding qi by (rule float_of_int_exact)
    moreover have "(2::real) ^ 53 < 2 powr 1024" by simp
    ultimately show ?thesis using qa by simp
  next
    case False
    have key: "d \<le> \<bar>q - real_of_int y\<bar>" for y
    proof -
      have "a - y * b \<noteq> 0"
      proof
        assume "a - y * b = 0"
        then have "a = b * y" by (simp add: mult.commute)
        then have "b dvd a" by (rule dvdI)
        with False show False by contradiction
      qed
      then have "1 \<le> \<bar>real_of_int (a - y * b)\<bar>" by linarith
      moreover have "q - real_of_int y = real_of_int (a - y * b) / real_of_int b"
        using b by (simp add: q_def field_simps)
      then have "\<bar>q - real_of_int y\<bar> = \<bar>real_of_int (a - y * b)\<bar> * d"
        by (simp only: abs_divide d_def) simp
      moreover have "1 * d \<le> \<bar>real_of_int (a - y * b)\<bar> * d"
        using calculation(1) d(1) by (intro mult_right_mono) simp_all
      ultimately show ?thesis by simp
    qed
    from key [of 0] have qd: "d \<le> \<bar>q\<bar>" by simp
    have "(2::real) ^ 53 * d > 1"
      using rb b1 by (simp add: d_def field_simps)
    then have dlow: "1 / 2 ^ 53 < d"
      by (simp add: field_simps)
    have "(2::real) powr (- 1022) \<le> 1 / 2 ^ 53"
      by (simp add: powr_minus_divide)
    with dlow qd have "2 powr (- 1022) \<le> \<bar>q\<bar>" by linarith
    then have "\<bar>float_of q - q\<bar> \<le> \<bar>q\<bar> * 2 powr (- 53)"
      by (rule float_of_err)
    moreover have "\<bar>q\<bar> * 2 powr (- 53) < d"
    proof -
      have "\<bar>real_of_int a\<bar> * d < 2 ^ 53 * d"
        using ra d(1) by (simp add: mult_strict_right_mono)
      then have "\<bar>q\<bar> < 2 ^ 53 * d" by (simp only: absq)
      then show ?thesis by (simp add: powr_minus_divide field_simps)
    qed
    ultimately have err: "\<bar>float_of q - q\<bar> < d" by linarith
    have "(2::real) ^ 53 + 1 < 2 powr 1024" by simp
    with err qa d(2) have "\<bar>float_of q\<bar> < 2 powr 1024" by linarith
    moreover have "(real_of_int z < float_of q) = (real_of_int z < q)"
      using key [of z] err by linarith
    moreover have "(float_of q \<le> real_of_int z) = (q \<le> real_of_int z)"
      using key [of z] err by linarith
    ultimately show ?thesis by simp
  qed
  from goal show "\<bar>float_of (real_of_int a / real_of_int b)\<bar> < 2 powr 1024"
    unfolding q_def by simp
  from goal show "(real_of_int z < float_of (real_of_int a / real_of_int b))
           = (real_of_int z < real_of_int a / real_of_int b)"
    unfolding q_def by simp
  from goal show "(float_of (real_of_int a / real_of_int b) \<le> real_of_int z)
           = (real_of_int a / real_of_int b \<le> real_of_int z)"
    unfolding q_def by simp
qed

lemma float_of_quotient_ceiling:
  assumes "b \<noteq> 0" and "\<bar>a\<bar> < 2 ^ 53" and "\<bar>b\<bar> < 2 ^ 53"
  shows "\<lceil>float_of (real_of_int a / real_of_int b)\<rceil> = \<lceil>real_of_int a / real_of_int b\<rceil>"
proof (rule antisym)
  show "\<lceil>float_of (real_of_int a / real_of_int b)\<rceil> \<le> \<lceil>real_of_int a / real_of_int b\<rceil>"
    by (simp only: ceiling_le_iff float_of_quotient(3) [OF assms] le_of_int_ceiling)
  show "\<lceil>real_of_int a / real_of_int b\<rceil> \<le> \<lceil>float_of (real_of_int a / real_of_int b)\<rceil>"
    by (simp only: ceiling_le_iff float_of_quotient(3) [OF assms, symmetric] le_of_int_ceiling)
qed

lemma truediv_small:
  assumes "b \<noteq> 0" and "\<bar>a\<bar> < 2 ^ 53" and "\<bar>b\<bar> < 2 ^ 53"
  shows "truediv a b = Inr (float_of (real_of_int a / real_of_int b))"
  using float_of_quotient(1) [OF assms] assms(1) by (simp add: truediv_def Let_def)


lemma float_of_beyond:
  "float_of (real_of_int (10 * 2 ^ 53 + 1) / real_of_int 10) = 2 ^ 53"
proof -
  define x :: real where "x = real_of_int (10 * 2 ^ 53 + 1) / real_of_int 10"
  have x: "x = 90071992547409921 / 10" by (simp add: x_def)
  have e: "\<lfloor>log 2 \<bar>x\<bar>\<rfloor> = 53"
    by (subst floor_log_eq_powr_iff) (simp_all add: x)
  have fl: "\<lfloor>x / 2\<rfloor> = 4503599627370496"
    by (simp add: x floor_eq_iff)
  have r: "round_half_even (x / 2) = 4503599627370496"
    unfolding round_half_even_def Let_def fl by (simp add: x)
  have "x \<noteq> 0" by (simp add: x)
  moreover have "- 1022 \<le> \<lfloor>log 2 \<bar>x\<bar>\<rfloor>" by (simp add: e)
  ultimately have "float_of x =
     real_of_int (round_half_even (x / 2 powr real_of_int (\<lfloor>log 2 \<bar>x\<bar>\<rfloor> - 52)))
       * 2 powr real_of_int (\<lfloor>log 2 \<bar>x\<bar>\<rfloor> - 52)"
    by (rule float_of_normal)
  also have "\<dots> = real_of_int (round_half_even (x / 2)) * 2"
    by (simp only: e) simp
  also have "\<dots> = 2 ^ 53" by (simp only: r) simp
  finally show ?thesis unfolding x_def .
qed

subsection \<open>Pagination\<close>

text \<open>
  C8, as the code has it. For a page length other than zero, and a size and a page length
  below \<open>2 ^ 53\<close> in absolute value, \<open>next_page\<close> moves to the next page while the cursor is
  below \<open>ceil(size / N)\<close> and otherwise sets it to 1, in particular when the cursor is on
  the last page; \<open>previous_page\<close> moves back while the cursor is above 1 and otherwise sets
  it to \<open>ceil(size / N)\<close>, in particular when the cursor is on page 1. Here
  \<open>ceil(size / N)\<close> is the ceiling of the exact quotient; the cursor itself is any int.
\<close>

theorem paging_cursor:
  "N \<noteq> 0 \<Longrightarrow> \<bar>N\<bar> < 2 ^ 53 \<Longrightarrow> \<bar>node_size b\<bar> < 2 ^ 53 \<Longrightarrow>
   next_page N b =
     Inr (b\<lparr>page := (if page b < \<lceil>real_of_int (node_size b) / real_of_int N\<rceil>
                      then page b + 1 else 1)\<rparr>) \<and>
   previous_page N b =
     Inr (b\<lparr>page := (if 1 < page b then page b - 1
                      else \<lceil>real_of_int (node_size b) / real_of_int N\<rceil>)\<rparr>)"
  by (simp add: next_page_def previous_page_def truediv_small float_of_quotient(2)
      float_of_quotient_ceiling less_ceiling_iff)

theorem paging_cursor_witness:
  "(10::int) \<noteq> 0 \<and> \<bar>10::int\<bar> < 2 ^ 53 \<and>
   \<bar>node_size \<lparr>parent = 0, page = 1, node_size = 25\<rparr>\<bar> < 2 ^ 53 \<and>
   next_page 10 \<lparr>parent = 0, page = 1, node_size = 25\<rparr>
     = Inr \<lparr>parent = 0, page = 2, node_size = 25\<rparr> \<and>
   previous_page 10 \<lparr>parent = 0, page = 1, node_size = 25\<rparr>
     = Inr \<lparr>parent = 0, page = 3, node_size = 25\<rparr>"
proof -
  have c: "\<lceil>real_of_int 25 / real_of_int 10\<rceil> = 3"
    by (simp add: ceiling_eq_iff)
  show ?thesis
    using paging_cursor [of 10 "\<lparr>parent = 0, page = 1, node_size = 25\<rparr>"] c
    by simp
qed

text \<open>
  C8 as stated fails on a node that was just constructed (page 1, size 0) with ten
  entries to a page: the cursor is not \<open>ceil(0 / 10) = 0\<close>, yet \<open>next_page\<close> does not
  increment it; the page stays 1.
\<close>

theorem next_page_otherwise_counterexample:
  "page \<lparr>parent = 0, page = 1, node_size = 0\<rparr>
     \<noteq> \<lceil>real_of_int (node_size \<lparr>parent = 0, page = 1, node_size = 0\<rparr>) / real_of_int 10\<rceil> \<and>
   next_page 10 \<lparr>parent = 0, page = 1, node_size = 0\<rparr>
     = Inr \<lparr>parent = 0, page = 1, node_size = 0\<rparr> \<and>
   next_page 10 \<lparr>parent = 0, page = 1, node_size = 0\<rparr>
     \<noteq> Inr \<lparr>parent = 0, page = 1 + 1, node_size = 0\<rparr>"
  by (simp add: next_page_def truediv_def float_of_def)

text \<open>
  The bound on the size is needed. With ten entries to a page, the size
  \<open>10 * 2 ^ 53 + 1\<close> has the quotient \<open>2 ^ 53 + 1 / 10\<close>, which Python rounds to the double
  \<open>2 ^ 53\<close>: on page \<open>2 ^ 53\<close>, which is below \<open>ceil(size / N) = 2 ^ 53 + 1\<close>, \<open>next_page\<close>
  sets the cursor to 1.
\<close>

lemma next_page_beyond_doubles:
  "page \<lparr>parent = 0, page = 2 ^ 53, node_size = 10 * 2 ^ 53 + 1\<rparr>
     < \<lceil>real_of_int (10 * 2 ^ 53 + 1) / real_of_int 10\<rceil> \<and>
   next_page 10 \<lparr>parent = 0, page = 2 ^ 53, node_size = 10 * 2 ^ 53 + 1\<rparr>
     = Inr \<lparr>parent = 0, page = 1, node_size = 10 * 2 ^ 53 + 1\<rparr>"
proof -
  have "(2::int) ^ 53 < \<lceil>real_of_int (10 * 2 ^ 53 + 1) / real_of_int 10\<rceil>"
    by (simp add: less_ceiling_iff)
  moreover have "truediv (10 * 2 ^ 53 + 1) 10 = Inr (2 ^ 53)"
    unfolding truediv_def Let_def float_of_beyond by simp
  ultimately show ?thesis
    by (simp add: next_page_def)
qed

subsection \<open>The field cursor of the draft\<close>

lemma next_field_loop_found:
  "next_field_loop True cur ks = (case ks of [] \<Rightarrow> cur | f # _ \<Rightarrow> f)"
  by (cases ks) simp_all

lemma next_field_loop_at:
  "distinct ks \<Longrightarrow> i < length ks \<Longrightarrow>
   next_field_loop False (ks ! i) ks = (if Suc i < length ks then ks ! Suc i else ks ! i)"
proof (induction ks arbitrary: i)
  case Nil
  then show ?case by simp
next
  case (Cons k ks)
  show ?case
  proof (cases i)
    case 0
    then show ?thesis by (cases ks) (simp_all add: next_field_loop_found)
  next
    case (Suc j)
    with Cons.prems have j: "j < length ks" and d: "distinct ks" and "ks ! j \<noteq> k"
      by auto
    with Cons.IH [OF d j] Suc show ?thesis by simp
  qed
qed

lemma prev_field_loop_at:
  "distinct ks \<Longrightarrow> i < length ks \<Longrightarrow>
   prev_field_loop p (ks ! i) ks = (if i = 0 then p else ks ! (i - 1))"
proof (induction ks arbitrary: i p)
  case Nil
  then show ?case by simp
next
  case (Cons k ks)
  show ?case
  proof (cases i)
    case 0
    then show ?thesis by simp
  next
    case (Suc j)
    with Cons.prems have j: "j < length ks" and d: "distinct ks" and "ks ! j \<noteq> k"
      by auto
    with Cons.IH [OF d j, of k] Suc show ?thesis by (cases j) simp_all
  qed
qed

text \<open>
  C7, as the code has it. The keys of a dict are pairwise different; with the cursor on
  the \<open>i\<close>-th key, \<open>next_field\<close> moves it to the following key and leaves it where it is on
  the last key (the scan ends without a wrap), and \<open>prev_field\<close> moves it to the preceding
  key and leaves it where it is on the first key.
\<close>

theorem field_cursor_moves:
  assumes "distinct (dict_keys (draft_fields s))"
    and "i < length (dict_keys (draft_fields s))"
    and "current_field s = dict_keys (draft_fields s) ! i"
  shows "next_field s =
           s\<lparr>current_field :=
               (if Suc i < length (dict_keys (draft_fields s))
                then dict_keys (draft_fields s) ! Suc i
                else current_field s)\<rparr> \<and>
         prev_field s =
           Inr (s\<lparr>current_field :=
                    (if 0 < i then dict_keys (draft_fields s) ! (i - 1)
                     else current_field s)\<rparr>)"
proof -
  let ?ks = "dict_keys (draft_fields s)"
  have n: "next_field_loop False (current_field s) ?ks =
             (if Suc i < length ?ks then ?ks ! Suc i else current_field s)"
    using next_field_loop_at [OF assms(1,2)] assms(3) by simp
  obtain k rest where ks: "?ks = k # rest"
    using assms(2) by (cases ?ks) auto
  have "prev_field_loop k (current_field s) ?ks = (if i = 0 then k else ?ks ! (i - 1))"
    using prev_field_loop_at [OF assms(1,2), of k] assms(3) by simp
  moreover have "i = 0 \<Longrightarrow> k = current_field s"
    using assms(3) ks by simp
  ultimately have p: "prev_field_loop k (current_field s) ?ks =
             (if 0 < i then ?ks ! (i - 1) else current_field s)"
    by auto
  show ?thesis
    using n p ks by (simp add: next_field_def prev_field_def)
qed

theorem field_cursor_moves_witness:
  "next_field \<lparr>item_type = ENTRY, process_type = ADD,
      draft_fields = [(''Title'', PNone), (''UserName'', PNone), (''Password'', PNone),
                      (''URL'', PNone), (''Notes'', PNone)],
      req_fields = [''Title'', ''Password''], current_field = ''Password''\<rparr>
   = \<lparr>item_type = ENTRY, process_type = ADD,
      draft_fields = [(''Title'', PNone), (''UserName'', PNone), (''Password'', PNone),
                      (''URL'', PNone), (''Notes'', PNone)],
      req_fields = [''Title'', ''Password''], current_field = ''URL''\<rparr> \<and>
   prev_field \<lparr>item_type = ENTRY, process_type = ADD,
      draft_fields = [(''Title'', PNone), (''UserName'', PNone), (''Password'', PNone),
                      (''URL'', PNone), (''Notes'', PNone)],
      req_fields = [''Title'', ''Password''], current_field = ''Password''\<rparr>
   = Inr \<lparr>item_type = ENTRY, process_type = ADD,
      draft_fields = [(''Title'', PNone), (''UserName'', PNone), (''Password'', PNone),
                      (''URL'', PNone), (''Notes'', PNone)],
      req_fields = [''Title'', ''Password''], current_field = ''UserName''\<rparr>"
  using field_cursor_moves [of "\<lparr>item_type = ENTRY, process_type = ADD,
      draft_fields = [(''Title'', PNone), (''UserName'', PNone), (''Password'', PNone),
                      (''URL'', PNone), (''Notes'', PNone)],
      req_fields = [''Title'', ''Password''], current_field = ''Password''\<rparr>" 2]
  by (simp add: dict_keys_def)

text \<open>
  C7 as stated fails on the draft of a group with the cursor on its last field
  \<open>Notes\<close>: \<open>next_field\<close> leaves the cursor on \<open>Notes\<close> and does not wrap to \<open>Name\<close>.
\<close>

theorem next_field_wrap_counterexample:
  "current_field (next_field \<lparr>item_type = GROUP, process_type = ADD,
      draft_fields = [(''Name'', PNone), (''Notes'', PNone)],
      req_fields = [''Name''], current_field = ''Notes''\<rparr>) = ''Notes'' \<and>
   current_field (next_field \<lparr>item_type = GROUP, process_type = ADD,
      draft_fields = [(''Name'', PNone), (''Notes'', PNone)],
      req_fields = [''Name''], current_field = ''Notes''\<rparr>) \<noteq> ''Name''"
  by (simp add: next_field_def dict_keys_def)

subsection \<open>The generated password\<close>

text \<open>
  C6 at a draw the sampler can make. The alphabet of the source has 63 characters, the
  digit 0 at positions 26 and 36; a sample that picks both positions (they are different
  positions) writes a password with 0 twice into the Password field. The cursor stays on
  Title.
\<close>

theorem generate_password_repeats_zero:
  "sample_ok alphabet passlen [26, 36, 0, 1, 2, 3, 4, 5] \<and>
   generate_password [26, 36, 0, 1, 2, 3, 4, 5]
     \<lparr>item_type = ENTRY, process_type = ADD,
      draft_fields = [(''Title'', PNone), (''UserName'', PNone), (''Password'', PNone),
                      (''URL'', PNone), (''Notes'', PNone)],
      req_fields = [''Title'', ''Password''], current_field = ''Title''\<rparr>
   = \<lparr>item_type = ENTRY, process_type = ADD,
      draft_fields = [(''Title'', PNone), (''UserName'', PNone),
                      (''Password'', PStr ''00abcdef''),
                      (''URL'', PNone), (''Notes'', PNone)],
      req_fields = [''Title'', ''Password''], current_field = ''Title''\<rparr> \<and>
   \<not> distinct ''00abcdef''"
  by (simp add: sample_ok_def alphabet_def passlen_def generate_password_def rsample_def
        set_cur_field_def set_cur_field_value_def)

subsection \<open>The object store\<close>

lemma deref_store:
  "deref (store st a ob) b = (if b = a \<and> a < length (heap st) then Some ob else deref st b)"
  by (auto simp: deref_def store_def)

lemma deref_Some_less: "deref st a = Some ob \<Longrightarrow> a < length (heap st)"
  by (auto simp: deref_def split: if_splits)

lemma heap_store_length [simp]: "length (heap (store st a ob)) = length (heap st)"
  by (simp add: store_def)

lemma dict_get_set:
  "dict_get (dict_set k v d) k' = (if k' = k then Some v else dict_get d k')"
  by (induction d) auto

lemma setattr_title:
  assumes s: "deref st s = Some (EString d)"
    and k: "dict_get d ''key'' = Some (PStr ''Title'')"
    and p: "dict_get d ''_parent'' = Some (PRef p)"
    and n: "is_node st p"
  shows "EntryString_setattr (Suc limit) s name v st =
           Inr (store (store st p (rename v (the (deref st p)))) s (EString (dict_set name v d)))"
proof -
  from n obtain ob where ob: "deref st p = Some ob" and nd: "(\<exists>g. ob = Group g) \<or> (\<exists>e. ob = Entry e)"
    by (auto simp: is_node_def split: option.splits obj.splits)
  have ne: "s \<noteq> p" using s ob nd by auto
  have lt: "p < length (heap st)" using ob by (rule deref_Some_less)
  from nd show ?thesis
  proof
    assume "\<exists>g. ob = Group g"
    then obtain g where "ob = Group g" ..
    then show ?thesis using s k p ob ne lt
      by (simp add: deref_store rename_def)
  next
    assume "\<exists>e. ob = Entry e"
    then obtain e where "ob = Entry e" ..
    then show ?thesis using s k p ob ne lt
      by (simp add: deref_store rename_def)
  qed
qed

lemma setattr_other:
  assumes s: "deref st s = Some (EString d)"
    and k: "dict_get d ''key'' \<noteq> Some (PStr ''Title'')"
  shows "EntryString_setattr (Suc limit) s name v st =
           Inr (store st s (EString (dict_set name v d)))"
  using s k by simp


lemma is_node_rename_store:
  assumes "is_node st p" "deref st it = Some (EString d)"
  shows "is_node (store (store st p (rename v (the (deref st p)))) it (EString d')) q = is_node st q"
  using assms
  by (auto simp: is_node_def deref_store rename_def split: option.splits obj.splits)

lemma entry_step:
  assumes n: "is_node st p" and i: "deref st it = Some (EString d)"
    and e: "deref st e = Some (Entry en)"
  shows "deref (store (store st p (rename v (the (deref st p)))) it (EString d')) e
           = Some (Entry (if p = e then en\<lparr>e_name := v\<rparr> else en))"
  using assms
  by (auto simp: deref_store rename_def dest: deref_Some_less)


lemma is_field_stringE:
  assumes "is_field_string st a"
  obtains d q where "deref st a = Some (EString d)" "dict_get d ''key'' \<noteq> None"
    "dict_get d ''_parent'' = Some (PRef q)" "is_node st q"
proof (cases "deref st a")
  case None
  with assms show ?thesis by (simp add: is_field_string_def)
next
  case (Some ob)
  show ?thesis
  proof (cases ob)
    case (Group g)
    with assms Some show ?thesis by (simp add: is_field_string_def)
  next
    case (Entry e)
    with assms Some show ?thesis by (simp add: is_field_string_def)
  next
    case (EString d)
    show ?thesis
    proof (cases "dict_get d ''_parent''")
      case None
      with assms Some EString show ?thesis by (simp add: is_field_string_def)
    next
      case pv: (Some pv)
      show ?thesis
        using assms Some EString pv that
        by (cases pv) (simp_all add: is_field_string_def)
    qed
  qed
qed

lemma title_childE:
  assumes "title_child st e a"
  obtains d where "deref st a = Some (EString d)" "dict_get d ''key'' = Some (PStr ''Title'')"
    "dict_get d ''_parent'' = Some (PRef e)"
proof (cases "deref st a")
  case None
  with assms show ?thesis by (simp add: title_child_def)
next
  case (Some ob)
  with assms that show ?thesis
    by (cases ob) (simp_all add: title_child_def)
qed


lemma node_not_string:
  "is_node st p \<Longrightarrow> deref st a = Some (EString d) \<Longrightarrow> a \<noteq> p"
  by (auto simp: is_node_def)

lemma is_field_string_step:
  assumes n: "is_node st p" and i: "deref st it = Some (EString d)"
    and a: "is_field_string st a"
  shows "is_field_string (store (store st p (rename v (the (deref st p)))) it
            (EString (dict_set ''value'' v d))) a"
proof -
  let ?st1 = "store (store st p (rename v (the (deref st p)))) it (EString (dict_set ''value'' v d))"
  from a obtain da q where da: "deref st a = Some (EString da)" "dict_get da ''key'' \<noteq> None"
      "dict_get da ''_parent'' = Some (PRef q)" "is_node st q"
    by (rule is_field_stringE)
  have q1: "is_node ?st1 q"
    using da(4) by (simp only: is_node_rename_store [OF n i])
  have ap: "a \<noteq> p" using n da(1) by (rule node_not_string)
  have il: "it < length (heap st)" using i by (rule deref_Some_less)
  show ?thesis
  proof (cases "a = it")
    case True
    then have "deref ?st1 a = Some (EString (dict_set ''value'' v d))"
      using il by (simp add: deref_store)
    moreover have "da = d" using True da(1) i by simp
    ultimately show ?thesis using da(2,3) q1
      by (simp add: is_field_string_def dict_get_set)
  next
    case False
    then have "deref ?st1 a = Some (EString da)"
      using da(1) ap by (simp add: deref_store)
    then show ?thesis using da(2,3) q1 by (simp add: is_field_string_def)
  qed
qed

lemma title_child_step:
  assumes n: "is_node st p" and i: "deref st it = Some (EString d)"
    and a: "title_child st e a"
  shows "title_child (store (store st p (rename v (the (deref st p)))) it
            (EString (dict_set ''value'' v d))) e a"
proof -
  let ?st1 = "store (store st p (rename v (the (deref st p)))) it (EString (dict_set ''value'' v d))"
  from a obtain da where da: "deref st a = Some (EString da)"
      "dict_get da ''key'' = Some (PStr ''Title'')" "dict_get da ''_parent'' = Some (PRef e)"
    by (rule title_childE)
  have ap: "a \<noteq> p" using n da(1) by (rule node_not_string)
  have il: "it < length (heap st)" using i by (rule deref_Some_less)
  show ?thesis
  proof (cases "a = it")
    case True
    then have "deref ?st1 a = Some (EString (dict_set ''value'' v d))"
      using il by (simp add: deref_store)
    moreover have "da = d" using True da(1) i by simp
    ultimately show ?thesis using da(2,3) by (simp add: title_child_def dict_get_set)
  next
    case False
    then have "deref ?st1 a = Some (EString da)"
      using da(1) ap by (simp add: deref_store)
    then show ?thesis using da(2,3) by (simp add: title_child_def)
  qed
qed

lemma update_item_loop_title:
  assumes "list_all (is_field_string st) its" and "deref st e = Some (Entry en)"
  shows "\<exists>st' en'. update_item_loop (Suc l) ''Title'' v its st = Inr st' \<and>
           deref st' e = Some (Entry en') \<and> e_items en' = e_items en \<and>
           (e_name en' = v \<or> (e_name en' = e_name en \<and> \<not> list_ex (title_child st e) its))"
  using assms
proof (induction its arbitrary: st en)
  case Nil
  then show ?case by simp
next
  case (Cons it rest)
  from Cons.prems(1) have fs: "is_field_string st it" and rest: "list_all (is_field_string st) rest"
    by simp_all
  from fs obtain d p where d: "deref st it = Some (EString d)" and k0: "dict_get d ''key'' \<noteq> None"
      and p: "dict_get d ''_parent'' = Some (PRef p)" and n: "is_node st p"
    by (rule is_field_stringE)
  from k0 obtain k where k: "dict_get d ''key'' = Some k" by auto
  show ?case
  proof (cases "k = PStr ''Title''")
    case False
    then have nt: "\<not> title_child st e it" using d k by (simp add: title_child_def)
    from Cons.IH [OF rest Cons.prems(2)] obtain st' en' where r:
      "update_item_loop (Suc l) ''Title'' v rest st = Inr st'" "deref st' e = Some (Entry en')"
      "e_items en' = e_items en"
      "e_name en' = v \<or> (e_name en' = e_name en \<and> \<not> list_ex (title_child st e) rest)"
      by blast
    have run: "update_item_loop (Suc l) ''Title'' v (it # rest) st = Inr st'"
      using d k False r(1) by simp
    have "e_name en' = v \<or> (e_name en' = e_name en \<and> \<not> list_ex (title_child st e) (it # rest))"
      using r(4) nt by simp
    with run r(2,3) show ?thesis by blast
  next
    case True
    let ?st1 = "store (store st p (rename v (the (deref st p)))) it (EString (dict_set ''value'' v d))"
    have kt: "dict_get d ''key'' = Some (PStr ''Title'')" using k True by simp
    have step: "EntryString_setattr (Suc l) it ''value'' v st = Inr ?st1"
      by (rule setattr_title [OF d kt p n])
    have rest1: "list_all (is_field_string ?st1) rest"
      using rest is_field_string_step [OF n d] by (simp add: list_all_iff)
    let ?en1 = "if p = e then en\<lparr>e_name := v\<rparr> else en"
    have e1: "deref ?st1 e = Some (Entry ?en1)"
      by (rule entry_step [OF n d Cons.prems(2)])
    from Cons.IH [OF rest1 e1] obtain st' en' where r:
      "update_item_loop (Suc l) ''Title'' v rest ?st1 = Inr st'" "deref st' e = Some (Entry en')"
      "e_items en' = e_items ?en1"
      "e_name en' = v \<or> (e_name en' = e_name ?en1 \<and> \<not> list_ex (title_child ?st1 e) rest)"
      by blast
    have "update_item_loop (Suc l) ''Title'' v (it # rest) st =
            (case EntryString_setattr (Suc l) it ''value'' v st of
               Inl err \<Rightarrow> Inl err
             | Inr st' \<Rightarrow> update_item_loop (Suc l) ''Title'' v rest st')"
      using d kt by (simp del: EntryString_setattr.simps)
    then have run: "update_item_loop (Suc l) ''Title'' v (it # rest) st = Inr st'"
      using step r(1) by (simp del: EntryString_setattr.simps)
    have items: "e_items en' = e_items en" using r(3) by (simp split: if_splits)
    have name: "e_name en' = v \<or> (e_name en' = e_name en \<and> \<not> list_ex (title_child st e) (it # rest))"
    proof (cases "p = e")
      case True
      then show ?thesis using r(4) by auto
    next
      case False
      then have nt: "\<not> title_child st e it" using d p by (simp add: title_child_def)
      have "list_ex (title_child st e) rest \<Longrightarrow> list_ex (title_child ?st1 e) rest"
        using title_child_step [OF n d] by (auto simp: list_ex_iff)
      then show ?thesis using r(4) False nt by auto
    qed
    show ?thesis using run r(2) items name by blast
  qed
qed

lemma update_item_title:
  assumes e: "deref st e = Some (Entry en)"
    and all: "list_all (is_field_string st) (e_items en)"
    and s: "s \<in> set (e_items en)"
    and t: "title_child st e s"
    and l: "0 < limit"
  shows "\<exists>st'. update_item limit e (Some ''Title'') v st = Inr st' \<and> read_name st' e = Inr v"
proof -
  from l obtain l' where l': "limit = Suc l'" by (cases limit) auto
  from update_item_loop_title [OF all e, of l' v] obtain st' en' where r:
    "update_item_loop (Suc l') ''Title'' v (e_items en) st = Inr st'"
    "deref st' e = Some (Entry en')"
    "e_name en' = v \<or> (e_name en' = e_name en \<and> \<not> list_ex (title_child st e) (e_items en))"
    by blast
  have "list_ex (title_child st e) (e_items en)"
    using s t by (auto simp: list_ex_iff)
  with r(3) have "e_name en' = v" by simp
  then have "read_name st' e = Inr v"
    using r(2) by (simp add: read_name_def obj_name_def)
  moreover have "update_item limit e (Some ''Title'') v st = Inr st'"
    using e r(1) l' by (simp add: update_item_def)
  ultimately show ?thesis by blast
qed

lemma deref_alloc:
  "deref (snd (alloc st ob)) a =
     (if a = length (heap st) then Some ob else deref st a)"
  by (auto simp: deref_def alloc_def nth_append)

lemma append_title_string:
  assumes e: "deref st e = Some (Entry en)"
    and t: "deref st t = Some (EString d)"
    and k: "dict_get d ''key'' = Some (PStr ''Title'')"
    and v: "dict_get d ''value'' = Some v"
  shows "append e t st =
           Inr (store st e (Entry (en\<lparr>e_items := e_items en @ [t],
                                       node_size := node_size en + 1, e_name := v\<rparr>)))"
  using assms by (simp add: append_def KeeEntry_append_def Let_def)

lemma read_name_store_entry:
  "deref st e = Some ob \<Longrightarrow> read_name (store st e (Entry en')) e = Inr (e_name en')"
  using deref_Some_less [of st e ob] by (simp add: read_name_def obj_name_def deref_store)

lemma new_title_string:
  assumes e: "deref st e = Some (Entry en)" and l: "0 < limit"
  shows "\<exists>t st1 d. EntryString_init limit e (PStr ''Title'') v st = Inr (t, st1) \<and>
           deref st1 t = Some (EString d) \<and>
           dict_get d ''key'' = Some (PStr ''Title'') \<and> dict_get d ''value'' = Some v \<and>
           dict_get d ''_parent'' = Some (PRef e) \<and>
           deref st1 e = Some (Entry (en\<lparr>e_name := v\<rparr>)) \<and> read_name st1 e = Inr v"
proof -
  from l obtain l' where l': "limit = Suc l'" by (cases limit) auto
  have lt: "e < length (heap st)" using e by (rule deref_Some_less)
  have en: "heap st ! e = Entry en" using e lt by (simp add: deref_def)
  show ?thesis
    using lt en l'
    by (simp add: EntryString_init_def alloc_def deref_def store_def nth_append set_name_def
        read_name_def obj_name_def list_update_append)
qed

lemma py_int_0: "py_int (Some ''0'') = Inr 0"
  by (simp add: py_int_def strip_def is_space_def digit_val_def)

lemma py_int_37: "py_int (Some ''37'') = Inr 37"
  by (simp add: py_int_def strip_def is_space_def digit_val_def)

subsection \<open>Size and child list\<close>

text \<open>
  \<open>append\<close> keeps the size of a group in step with its child list; \<open>delete\<close> takes
  the node out of the child list of its parent and changes nothing else of the parent,
  its size included.
\<close>

lemma append_keeps_size_in_step:
  assumes "deref st self = Some (Group g)"
    and "node_size g = int (length (g_items g))"
    and "append self item st = Inr st'"
  shows "\<exists>g'. deref st' self = Some (Group g') \<and> g_items g' = g_items g @ [item] \<and>
          node_size g' = int (length (g_items g'))"
proof -
  have lt: "self < length (heap st)" using assms(1) by (rule deref_Some_less)
  from assms(1,3) have
    "st' = store st self (Group (g\<lparr>g_items := g_items g @ [item], node_size := node_size g + 1\<rparr>))"
    by (auto simp: append_def KeeGroup_append_def split: option.splits obj.splits)
  then show ?thesis using lt assms(2) by (simp add: deref_store)
qed

lemma delete_leaves_size:
  assumes "deref st self = Some (Entry e)"
    and "deref st (parent e) = Some (Group g)"
    and "self \<in> set (g_items g)"
  shows "\<exists>st'. delete self st = Inr st' \<and>
          deref st' (parent e) =
            Some (Group (g\<lparr>g_items := remove1 self (g_items g)\<rparr>))"
proof -
  have lt: "parent e < length (heap st)" using assms(2) by (rule deref_Some_less)
  have d: "deref (deactivate e st) a = deref st a" for a
    by (simp add: deref_def deactivate_def Let_def)
  have h: "length (heap (deactivate e st)) = length (heap st)"
    by (simp add: deactivate_def Let_def)
  have "delete self st =
          Inr (store (deactivate e st) (parent e) (Group (g\<lparr>g_items := remove1 self (g_items g)\<rparr>)))"
    using assms by (simp add: delete_def remove_from_parent_def d)
  then show ?thesis using lt h by (simp add: deref_store)
qed

text \<open>
  C1 on one \<open>append\<close> and one \<open>delete\<close>. Appending the entry at address 1 to the
  root group, while that group is still empty with size 0, gives the example document:
  one child, size 1. Deleting the entry then takes it out of the child list of the root
  group, and the size of the root group is still 1 with no child left.
\<close>

theorem delete_keeps_parent_size:
  "append 0 1
     (store example_doc 0
        (Group \<lparr>parent = 0, page = 1, node_size = 0, g_uuid = ''R'', g_name = PStr ''Root'',
                g_notes = PNone, g_icon_id = 37, g_items = []\<rparr>)) = Inr example_doc \<and>
   deref example_doc 0 =
     Some (Group \<lparr>parent = 0, page = 1, node_size = 1, g_uuid = ''R'', g_name = PStr ''Root'',
                  g_notes = PNone, g_icon_id = 37, g_items = [1]\<rparr>) \<and>
   delete 1 example_doc =
     Inr (store example_doc 0
            (Group \<lparr>parent = 0, page = 1, node_size = 1, g_uuid = ''R'', g_name = PStr ''Root'',
                    g_notes = PNone, g_icon_id = 37, g_items = []\<rparr>))"
  by (simp add: append_def KeeGroup_append_def delete_def deactivate_def remove_from_parent_def
      deref_def store_def example_doc_def)

subsection \<open>The derived name of an entry\<close>

text \<open>
  C9. Let \<open>e\<close> be an entry and \<open>v\<close> any value, the empty string included.

  \<^item> If the children of \<open>e\<close> are strings as the constructor leaves them, one of them a
    string with key \<open>"Title"\<close> whose parent reference is \<open>e\<close>, then
    \<open>update_item("Title", v)\<close> returns and the name of \<open>e\<close> is \<open>v\<close> afterwards.
  \<^item> For every string \<open>t\<close> of the state with key \<open>"Title"\<close> and value \<open>v\<close>, whatever the
    name of \<open>e\<close> was, \<open>e.append(t)\<close> returns, and afterwards the name of \<open>e\<close> is \<open>v\<close>,
    \<open>t\<close> is the last child of \<open>e\<close> and the size of \<open>e\<close> is one more.
  \<^item> The constructor \<open>EntryString("Title", v, parent=e)\<close> returns a string with that key,
    value and parent, and the name of \<open>e\<close> is \<open>v\<close> already when it returns.
\<close>

theorem title_sets_entry_name:
  assumes "deref st e = Some (Entry en)"
  shows "(list_all (is_field_string st) (e_items en) \<and> s \<in> set (e_items en) \<and>
          title_child st e s \<and> 0 < limit \<longrightarrow>
            (\<exists>st'. update_item limit e (Some ''Title'') v st = Inr st' \<and>
                   read_name st' e = Inr v)) \<and>
         (deref st t = Some (EString d) \<and> dict_get d ''key'' = Some (PStr ''Title'') \<and>
          dict_get d ''value'' = Some v \<longrightarrow>
            (\<exists>st'. append e t st = Inr st' \<and> read_name st' e = Inr v \<and>
                   deref st' e = Some (Entry (en\<lparr>e_items := e_items en @ [t],
                                                node_size := node_size en + 1,
                                                e_name := v\<rparr>)))) \<and>
         (0 < limit \<longrightarrow>
            (\<exists>t' st1 d'. EntryString_init limit e (PStr ''Title'') v st = Inr (t', st1) \<and>
                   deref st1 t' = Some (EString d') \<and>
                   dict_get d' ''key'' = Some (PStr ''Title'') \<and>
                   dict_get d' ''value'' = Some v \<and>
                   dict_get d' ''_parent'' = Some (PRef e) \<and>
                   read_name st1 e = Inr v))"
proof (intro conjI impI)
  assume "list_all (is_field_string st) (e_items en) \<and> s \<in> set (e_items en) \<and>
          title_child st e s \<and> 0 < limit"
  then show "\<exists>st'. update_item limit e (Some ''Title'') v st = Inr st' \<and> read_name st' e = Inr v"
    using assms update_item_title by blast
next
  assume a: "deref st t = Some (EString d) \<and> dict_get d ''key'' = Some (PStr ''Title'') \<and>
          dict_get d ''value'' = Some v"
  then have "append e t st =
      Inr (store st e (Entry (en\<lparr>e_items := e_items en @ [t],
                                  node_size := node_size en + 1, e_name := v\<rparr>)))"
    using assms append_title_string by blast
  moreover have "read_name (store st e (Entry (en\<lparr>e_items := e_items en @ [t],
                                  node_size := node_size en + 1, e_name := v\<rparr>))) e = Inr v"
    using read_name_store_entry [OF assms] by simp
  moreover have "deref (store st e (Entry (en\<lparr>e_items := e_items en @ [t],
                                  node_size := node_size en + 1, e_name := v\<rparr>))) e
      = Some (Entry (en\<lparr>e_items := e_items en @ [t],
                                  node_size := node_size en + 1, e_name := v\<rparr>))"
    using deref_Some_less [OF assms] by (simp add: deref_store)
  ultimately show "\<exists>st'. append e t st = Inr st' \<and> read_name st' e = Inr v \<and>
                   deref st' e = Some (Entry (en\<lparr>e_items := e_items en @ [t],
                                                node_size := node_size en + 1,
                                                e_name := v\<rparr>))"
    by blast
next
  assume "0 < limit"
  from new_title_string [OF assms this, of v]
  show "\<exists>t' st1 d'. EntryString_init limit e (PStr ''Title'') v st = Inr (t', st1) \<and>
                   deref st1 t' = Some (EString d') \<and>
                   dict_get d' ''key'' = Some (PStr ''Title'') \<and>
                   dict_get d' ''value'' = Some v \<and>
                   dict_get d' ''_parent'' = Some (PRef e) \<and>
                   read_name st1 e = Inr v"
    by blast
qed

lemma example_doc_entry:
  "deref example_doc 1 =
     Some (Entry \<lparr>parent = 0, page = 1, node_size = 2, e_uuid = ''E'', e_icon_id = 0,
                e_items = [2, 3], e_name = PStr ''site'',
                e_autotype = \<lparr>enabled = PStr ''True'', dto = PStr ''0'', association = None\<rparr>\<rparr>)"
  by (simp add: example_doc_def deref_def)

lemma example_doc_strings:
  "is_field_string example_doc 2" "is_field_string example_doc 3" "title_child example_doc 1 2"
  by (simp_all add: example_doc_def deref_def is_field_string_def is_node_def title_child_def)

lemma example_unnamed_entry:
  "deref example_unnamed 1 =
     Some (Entry \<lparr>parent = 0, page = 1, node_size = 2, e_uuid = ''E'', e_icon_id = 0,
                e_items = [2, 3], e_name = PNone,
                e_autotype = \<lparr>enabled = PStr ''True'', dto = PStr ''0'', association = None\<rparr>\<rparr>)"
  by (simp add: example_unnamed_def example_doc_def deref_def store_def)

lemma example_unnamed_title:
  "deref example_unnamed 2 =
     Some (EString [(''_root'', PManager), (''_parent'', PRef 1), (''page'', PInt 1),
                    (''size'', PInt 0), (''type'', PType STRING), (''key'', PStr ''Title''),
                    (''value'', PStr ''site'')])"
  by (simp add: example_unnamed_def example_doc_def deref_def store_def)

theorem title_sets_entry_name_witness:
  "ebind (update_item 1 1 (Some ''Title'') (PStr []) example_doc) (\<lambda>st'. read_name st' 1)
     = Inr (PStr []) \<and>
   read_name example_unnamed 1 = Inr PNone \<and>
   ebind (append 1 2 example_unnamed) (\<lambda>st'. read_name st' 1) = Inr (PStr ''site'') \<and>
   ebind (EntryString_init 1 1 (PStr ''Title'') (PStr []) example_doc)
     (\<lambda>(t', st1). read_name st1 1) = Inr (PStr [])"
proof -
  have n: "read_name example_unnamed 1 = Inr PNone"
    using example_unnamed_entry by (simp add: read_name_def obj_name_def)
  have u: "\<exists>st'. update_item 1 1 (Some ''Title'') (PStr []) example_doc = Inr st' \<and>
              read_name st' 1 = Inr (PStr [])"
    using title_sets_entry_name [OF example_doc_entry, where s = 2 and limit = 1
        and v = "PStr []" and t = 2 and d = "[]"] example_doc_strings
    by simp
  have c: "\<exists>t' st1. EntryString_init 1 1 (PStr ''Title'') (PStr []) example_doc = Inr (t', st1) \<and>
              read_name st1 1 = Inr (PStr [])"
    using title_sets_entry_name [OF example_doc_entry, where s = 2 and limit = 1
        and v = "PStr []" and t = 2 and d = "[]"]
    by auto
  have a: "\<exists>st'. append 1 2 example_unnamed = Inr st' \<and> read_name st' 1 = Inr (PStr ''site'')"
    using title_sets_entry_name [OF example_unnamed_entry, where s = 2 and limit = 1
        and v = "PStr ''site''" and t = 2
        and d = "[(''_root'', PManager), (''_parent'', PRef 1), (''page'', PInt 1),
                  (''size'', PInt 0), (''type'', PType STRING), (''key'', PStr ''Title''),
                  (''value'', PStr ''site'')]"] example_unnamed_title
    by auto
  from u c a n show ?thesis by auto
qed



text \<open>
  \<open>next_page\<close> on the Title string of the example document assigns \<open>page\<close>, and
  the entry is named \<open>1\<close>.
\<close>

lemma title_string_next_page_renames:
  "ebind (EntryString_next_page 1 10 2 example_doc) (\<lambda>st'. read_name st' 1) = Inr (PInt 1)"
  by (simp add: EntryString_next_page_def example_doc_def deref_def store_def read_name_def
      obj_name_def truediv_def float_of_def)

subsection \<open>The search overlay\<close>

lemma is_plain_stringE:
  assumes "is_plain_string st a"
  obtains d k v where "deref st a = Some (EString d)" "dict_get d ''key'' = Some k"
    "dict_get d ''value'' = Some v"
proof (cases "deref st a")
  case None
  with assms show ?thesis by (simp add: is_plain_string_def)
next
  case (Some ob)
  with assms that show ?thesis
    by (cases ob) (auto simp: is_plain_string_def)
qed

lemma store_store [simp]: "store (store st a x) a y = store st a y"
  by (simp add: store_def)

lemma KeeEntry_append_ok:
  assumes t: "deref st t = Some (Entry en)" and s: "is_plain_string st s"
  shows "\<exists>nm. append t s st =
           Inr (store st t (Entry (en\<lparr>e_items := e_items en @ [s],
                                      node_size := node_size en + 1, e_name := nm\<rparr>)))"
proof -
  from s obtain d k v where d: "deref st s = Some (EString d)" "dict_get d ''key'' = Some k"
      "dict_get d ''value'' = Some v"
    by (rule is_plain_stringE)
  show ?thesis
  proof (cases "k = PStr ''Title''")
    case True
    then have "append t s st =
           Inr (store st t (Entry (en\<lparr>e_items := e_items en @ [s],
                                      node_size := node_size en + 1, e_name := v\<rparr>)))"
      using t d by (simp add: append_def KeeEntry_append_def)
    then show ?thesis by blast
  next
    case False
    then have "append t s st =
           Inr (store st t (Entry (en\<lparr>e_items := e_items en @ [s],
                                      node_size := node_size en + 1, e_name := e_name en\<rparr>)))"
      using t d by (simp add: append_def KeeEntry_append_def)
    then show ?thesis by blast
  qed
qed

lemma is_plain_string_store:
  assumes "is_plain_string st s" "deref st t = Some (Entry en)"
  shows "is_plain_string (store st t (Entry en')) s"
proof -
  from assms(1) obtain d where d: "deref st s = Some (EString d)"
    by (rule is_plain_stringE)
  with assms(2) have "s \<noteq> t" by auto
  then have "deref (store st t (Entry en')) s = deref st s"
    by (simp add: deref_store)
  with assms(1) show ?thesis by (simp add: is_plain_string_def)
qed

lemma append_all_ok:
  assumes "deref st t = Some (Entry en)" and "list_all (is_plain_string st) its"
  shows "\<exists>nm. append_all t its st =
           Inr (store st t (Entry (en\<lparr>e_items := e_items en @ its,
                                      node_size := node_size en + int (length its),
                                      e_name := nm\<rparr>)))"
  using assms
proof (induction its arbitrary: st en)
  case Nil
  have "heap st ! t = Entry en"
    using Nil(1) by (simp add: deref_def split: if_splits)
  then have "(heap st)[t := Entry en] = heap st"
    by (metis list_update_id)
  then have "store st t (Entry (en\<lparr>e_items := e_items en @ [], node_size := node_size en + int (length ([]::nat list)),
          e_name := e_name en\<rparr>)) = st"
    by (simp add: store_def)
  then show ?case by (metis append_all.simps(1))
next
  case (Cons s rest)
  from Cons.prems(2) have s: "is_plain_string st s" and rest: "list_all (is_plain_string st) rest"
    by simp_all
  from KeeEntry_append_ok [OF Cons.prems(1) s] obtain nm where
    a: "append t s st = Inr (store st t (Entry (en\<lparr>e_items := e_items en @ [s],
                                      node_size := node_size en + 1, e_name := nm\<rparr>)))"
    by blast
  let ?en1 = "en\<lparr>e_items := e_items en @ [s], node_size := node_size en + 1, e_name := nm\<rparr>"
  let ?st1 = "store st t (Entry ?en1)"
  have t1: "deref ?st1 t = Some (Entry ?en1)"
    using Cons.prems(1) by (simp add: deref_store deref_Some_less)
  have rest1: "list_all (is_plain_string ?st1) rest"
    using rest is_plain_string_store [OF _ Cons.prems(1)] by (simp add: list_all_iff)
  from Cons.IH [OF t1 rest1] obtain nm' where
    b: "append_all t rest ?st1 =
           Inr (store ?st1 t (Entry (?en1\<lparr>e_items := e_items ?en1 @ rest,
                                      node_size := node_size ?en1 + int (length rest),
                                      e_name := nm'\<rparr>)))"
    by blast
  have "append_all t (s # rest) st =
           Inr (store st t (Entry (en\<lparr>e_items := e_items en @ s # rest,
                                      node_size := node_size en + int (length (s # rest)),
                                      e_name := nm'\<rparr>)))"
    using a b by (simp add: ac_simps)
  then show ?case by blast
qed


lemma deref_heap_append:
  "deref (st\<lparr>heap := heap st @ [ob]\<rparr>) a =
     (if a = length (heap st) then Some ob else deref st a)"
  by (auto simp: deref_def nth_append)

lemma matched_okE:
  assumes "matched_ok st m"
  obtains g where "deref st m = Some (Group g)"
  | en where "deref st m = Some (Entry en)" "list_all (is_plain_string st) (e_items en)"
proof (cases "deref st m")
  case None
  with assms show ?thesis by (simp add: matched_ok_def)
next
  case (Some ob)
  with assms that show ?thesis
    by (cases ob) (simp_all add: matched_ok_def)
qed

lemma frame_plain_string:
  assumes fr: "\<forall>a<length (heap st). deref st' a = deref st a \<or>
                 (\<exists>g g'. deref st a = Some (Group g) \<and> deref st' a = Some (Group g'))"
    and s: "is_plain_string st s"
  shows "is_plain_string st' s"
proof -
  from s obtain d where d: "deref st s = Some (EString d)"
    by (rule is_plain_stringE)
  then have "s < length (heap st)" by (rule deref_Some_less)
  with fr d have "deref st' s = deref st s" by auto
  with s show ?thesis by (simp add: is_plain_string_def)
qed

lemma frame_matched:
  assumes fr: "\<forall>a<length (heap st). deref st' a = deref st a \<or>
                 (\<exists>g g'. deref st a = Some (Group g) \<and> deref st' a = Some (Group g'))"
    and m: "matched_ok st m"
  shows "matched_ok st' m \<and> is_entry st' m = is_entry st m \<and>
         entry_items st' m = entry_items st m"
  using m
proof (cases rule: matched_okE)
  case (1 gm)
  then have "m < length (heap st)" by (rule deref_Some_less)
  with fr 1 obtain g' where "deref st' m = Some (Group g')" by auto
  then show ?thesis using 1
    by (simp add: matched_ok_def is_entry_def entry_items_def)
next
  case (2 en)
  have "m < length (heap st)" using 2(1) by (rule deref_Some_less)
  with fr 2(1) have eq: "deref st' m = deref st m" by auto
  have "list_all (is_plain_string st') (e_items en)"
    using 2(2) frame_plain_string [OF fr] by (simp add: list_all_iff)
  then show ?thesis using eq 2(1)
    by (simp add: matched_ok_def is_entry_def entry_items_def)
qed

lemma frame_matched_list:
  assumes fr: "\<forall>a<length (heap st). deref st' a = deref st a \<or>
                 (\<exists>g g'. deref st a = Some (Group g) \<and> deref st' a = Some (Group g'))"
    and ms: "list_all (matched_ok st) ms"
  shows "list_all (matched_ok st') ms \<and>
         map (entry_items st') (filter (is_entry st') ms)
           = map (entry_items st) (filter (is_entry st) ms)"
  using ms
proof (induction ms)
  case Nil
  then show ?case by simp
next
  case (Cons m ms)
  from Cons.prems have m: "matched_ok st m" and rest: "list_all (matched_ok st) ms"
    by simp_all
  from frame_matched [OF fr m] Cons.IH [OF rest] show ?case
    by simp
qed


lemma search_step:
  assumes sg: "deref st sg = Some (Group g)"
    and m: "deref st m = Some (Entry en)"
    and ok: "list_all (is_plain_string st) (e_items en)"
  shows "\<exists>st3 en3.
           (case KeeEntry_init gen sg
                  \<lparr>enabled = PBool True, dto = PStr ''0'', association = None\<rparr>
                  (Some ''0'') (Some []) st of
             Inl err \<Rightarrow> Inl err
           | Inr (temp_entry, st1) \<Rightarrow>
               (case append_all temp_entry (e_items en) st1 of
                  Inl err \<Rightarrow> Inl err
                | Inr st2 \<Rightarrow>
                    (case append sg temp_entry st2 of
                       Inl err \<Rightarrow> Inl err
                     | Inr st3 \<Rightarrow> search_loop gen sg rest st3))) = search_loop gen sg rest st3 \<and>
           length (heap st3) = Suc (length (heap st)) \<and>
           (\<forall>a<length (heap st). a \<noteq> sg \<longrightarrow> deref st3 a = deref st a) \<and>
           deref st3 (length (heap st)) = Some (Entry en3) \<and> e_items en3 = e_items en \<and>
           deref st3 sg = Some (Group (g\<lparr>g_items := g_items g @ [length (heap st)],
                                          node_size := node_size g + 1\<rparr>)) \<and>
           st3\<lparr>heap := heap st\<rparr> = st"
proof -
  let ?t = "length (heap st)"
  let ?st1 = "st\<lparr>heap := heap st @ [Entry (overlay_entry gen sg ?t)]\<rparr>"
  have init: "KeeEntry_init gen sg \<lparr>enabled = PBool True, dto = PStr ''0'', association = None\<rparr>
                  (Some ''0'') (Some []) st = Inr (?t, ?st1)"
    by (simp add: KeeEntry_init_def py_int_0 alloc_def overlay_entry_def)
  have sgl: "sg < ?t" using sg by (rule deref_Some_less)
  have t1: "deref ?st1 ?t = Some (Entry (overlay_entry gen sg ?t))"
    by (simp add: deref_heap_append)
  have fr1: "\<forall>a<length (heap st). a \<noteq> ?t \<longrightarrow> deref ?st1 a = deref st a"
    by (simp add: deref_heap_append)
  have ok1: "list_all (is_plain_string ?st1) (e_items en)"
  proof -
    have "is_plain_string ?st1 s" if "is_plain_string st s" for s
    proof -
      from that obtain d where "deref st s = Some (EString d)" by (rule is_plain_stringE)
      then have "s < ?t" by (rule deref_Some_less)
      then have "deref ?st1 s = deref st s" by (simp add: deref_heap_append)
      with that show ?thesis by (simp add: is_plain_string_def)
    qed
    with ok show ?thesis by (simp add: list_all_iff)
  qed
  from append_all_ok [OF t1 ok1] obtain nm where
    app: "append_all ?t (e_items en) ?st1 =
            Inr (store ?st1 ?t (Entry ((overlay_entry gen sg ?t)
                   \<lparr>e_items := e_items (overlay_entry gen sg ?t) @ e_items en,
                    node_size := node_size (overlay_entry gen sg ?t) + int (length (e_items en)),
                    e_name := nm\<rparr>)))"
    by blast
  let ?en3 = "(overlay_entry gen sg ?t)
                   \<lparr>e_items := e_items (overlay_entry gen sg ?t) @ e_items en,
                    node_size := node_size (overlay_entry gen sg ?t) + int (length (e_items en)),
                    e_name := nm\<rparr>"
  let ?st2 = "store ?st1 ?t (Entry ?en3)"
  have sg2: "deref ?st2 sg = Some (Group g)"
    using sg sgl by (simp add: deref_store deref_heap_append)
  have t2: "deref ?st2 ?t = Some (Entry ?en3)"
    by (simp add: deref_store)
  let ?g3 = "g\<lparr>g_items := g_items g @ [?t], node_size := node_size g + 1\<rparr>"
  let ?st3 = "store ?st2 sg (Group ?g3)"
  have app2: "append sg ?t ?st2 = Inr ?st3"
    using sg2 t2 by (simp add: append_def KeeGroup_append_def)
  have len: "length (heap ?st3) = Suc ?t"
    by simp
  have fr: "\<forall>a<?t. a \<noteq> sg \<longrightarrow> deref ?st3 a = deref st a"
    by (simp add: deref_store deref_heap_append)
  have t3: "deref ?st3 ?t = Some (Entry ?en3)"
    using sgl by (simp add: deref_store)
  have sg3: "deref ?st3 sg = Some (Group ?g3)"
    using sgl by (simp add: deref_store)
  have it: "e_items ?en3 = e_items en"
    by (simp add: overlay_entry_def)
  have same: "?st3\<lparr>heap := heap st\<rparr> = st"
    by (simp add: store_def)
  have run: "(case KeeEntry_init gen sg
                  \<lparr>enabled = PBool True, dto = PStr ''0'', association = None\<rparr>
                  (Some ''0'') (Some []) st of
             Inl err \<Rightarrow> Inl err
           | Inr (temp_entry, st1) \<Rightarrow>
               (case append_all temp_entry (e_items en) st1 of
                  Inl err \<Rightarrow> Inl err
                | Inr st2 \<Rightarrow>
                    (case append sg temp_entry st2 of
                       Inl err \<Rightarrow> Inl err
                     | Inr st3 \<Rightarrow> search_loop gen sg rest st3))) = search_loop gen sg rest ?st3"
    by (simp only: init app app2 sum.case prod.case)
  show ?thesis
    using run len fr t3 it sg3 same by blast
qed


lemma search_loop_spec:
  assumes "list_all (matched_ok st) ms" and "deref st sg = Some (Group g)"
  shows "\<exists>st' new. search_loop gen sg ms st = Inr st' \<and>
           length (heap st) \<le> length (heap st') \<and>
           (\<forall>a<length (heap st). a \<noteq> sg \<longrightarrow> deref st' a = deref st a) \<and>
           deref st' sg = Some (Group (g\<lparr>g_items := g_items g @ new,
                                          node_size := node_size g + int (length new)\<rparr>)) \<and>
           list_all (\<lambda>a. length (heap st) \<le> a \<and> a < length (heap st')) new \<and>
           map (entry_items st') new = map (entry_items st) (filter (is_entry st) ms) \<and>
           st'\<lparr>heap := heap st\<rparr> = st"
  using assms
proof (induction ms arbitrary: st g)
  case Nil
  have "g\<lparr>g_items := g_items g @ [], node_size := node_size g + int (length ([]::nat list))\<rparr> = g"
    by simp
  with Nil(2) show ?case
    by (intro exI [of _ st] exI [of _ "[]"]) simp
next
  case (Cons m ms)
  from Cons.prems(1) have m: "matched_ok st m" and rest: "list_all (matched_ok st) ms"
    by simp_all
  note sg = Cons.prems(2)
  from m show ?case
  proof (cases rule: matched_okE)
    case (1 gm)
    then have run: "search_loop gen sg (m # ms) st = search_loop gen sg ms st"
      by simp
    have ne: "\<not> is_entry st m" using 1 by (simp add: is_entry_def)
    from Cons.IH [OF rest sg] obtain st' new where r:
      "search_loop gen sg ms st = Inr st'"
      "length (heap st) \<le> length (heap st')"
      "\<forall>a<length (heap st). a \<noteq> sg \<longrightarrow> deref st' a = deref st a"
      "deref st' sg = Some (Group (g\<lparr>g_items := g_items g @ new,
                                          node_size := node_size g + int (length new)\<rparr>))"
      "list_all (\<lambda>a. length (heap st) \<le> a \<and> a < length (heap st')) new"
      "map (entry_items st') new = map (entry_items st) (filter (is_entry st) ms)"
      "st'\<lparr>heap := heap st\<rparr> = st"
      by blast
    have "map (entry_items st') new = map (entry_items st) (filter (is_entry st) (m # ms))"
      using r(6) ne by simp
    with run r show ?thesis by (intro exI [of _ st'] exI [of _ new]) simp
  next
    case (2 en)
    let ?t = "length (heap st)"
    let ?g3 = "g\<lparr>g_items := g_items g @ [?t], node_size := node_size g + 1\<rparr>"
    from search_step [OF sg 2, of gen ms] obtain st3 en3 where s:
      "search_loop gen sg (m # ms) st = search_loop gen sg ms st3"
      "length (heap st3) = Suc ?t"
      "\<forall>a<?t. a \<noteq> sg \<longrightarrow> deref st3 a = deref st a"
      "deref st3 ?t = Some (Entry en3)" "e_items en3 = e_items en"
      "deref st3 sg = Some (Group ?g3)"
      "st3\<lparr>heap := heap st\<rparr> = st"
      using 2(1) by auto
    have fr3: "\<forall>a<?t. deref st3 a = deref st a \<or>
                 (\<exists>g g'. deref st a = Some (Group g) \<and> deref st3 a = Some (Group g'))"
      using s(3,6) sg by auto
    from frame_matched_list [OF fr3 rest]
    have rest3: "list_all (matched_ok st3) ms"
      and maps: "map (entry_items st3) (filter (is_entry st3) ms)
                   = map (entry_items st) (filter (is_entry st) ms)"
      by simp_all
    from Cons.IH [OF rest3 s(6)] obtain st' new where r:
      "search_loop gen sg ms st3 = Inr st'"
      "length (heap st3) \<le> length (heap st')"
      "\<forall>a<length (heap st3). a \<noteq> sg \<longrightarrow> deref st' a = deref st3 a"
      "deref st' sg = Some (Group (?g3\<lparr>g_items := g_items ?g3 @ new,
                                          node_size := node_size ?g3 + int (length new)\<rparr>))"
      "list_all (\<lambda>a. length (heap st3) \<le> a \<and> a < length (heap st')) new"
      "map (entry_items st') new = map (entry_items st3) (filter (is_entry st3) ms)"
      "st'\<lparr>heap := heap st3\<rparr> = st3"
      by blast
    have sgl: "sg < ?t" using sg by (rule deref_Some_less)
    have c1: "search_loop gen sg (m # ms) st = Inr st'" using s(1) r(1) by simp
    have c2: "?t \<le> length (heap st')" using s(2) r(2) by simp
    have c3: "\<forall>a<?t. a \<noteq> sg \<longrightarrow> deref st' a = deref st a"
      using s(2,3) r(3) by simp
    have c4: "deref st' sg = Some (Group (g\<lparr>g_items := g_items g @ (?t # new),
                 node_size := node_size g + int (length (?t # new))\<rparr>))"
      using r(4) by (simp add: ac_simps)
    have c5: "list_all (\<lambda>a. ?t \<le> a \<and> a < length (heap st')) (?t # new)"
      using r(5) s(2) r(2) by (auto simp: list_all_iff)
    have "deref st' ?t = deref st3 ?t" using r(3) s(2) sgl by simp
    then have t': "entry_items st' ?t = Some (e_items en)"
      using s(4,5) by (simp add: entry_items_def)
    have me: "is_entry st m" "entry_items st m = Some (e_items en)"
      using 2(1) by (simp_all add: is_entry_def entry_items_def)
    have c6: "map (entry_items st') (?t # new) = map (entry_items st) (filter (is_entry st) (m # ms))"
      using t' me r(6) maps by simp
    have "st'\<lparr>heap := heap st\<rparr> = (st'\<lparr>heap := heap st3\<rparr>)\<lparr>heap := heap st\<rparr>"
      by simp
    then have c7: "st'\<lparr>heap := heap st\<rparr> = st" using r(7) s(7) by simp
    from c1 c2 c3 c4 c5 c6 c7 show ?thesis
      by (intro exI [of _ st'] exI [of _ "?t # new"]) simp
  qed
qed


lemma search_spec:
  assumes ms: "search_item limit word st = Inr ms" and ok: "list_all (matched_ok st) ms"
  shows "\<exists>st' g. search limit gen word st = Inr st' \<and>
           search_group st' = Some (length (heap st)) \<and>
           active_item st' = Some (length (heap st)) \<and>
           deref st' (length (heap st)) = Some (Group g) \<and>
           g_name g = PStr ''Search'' \<and>
           take (length (heap st)) (heap st') = heap st \<and>
           list_all (\<lambda>a. length (heap st) < a \<and> a < length (heap st')) (g_items g) \<and>
           map (entry_items st') (g_items g) = map (entry_items st) (filter (is_entry st) ms)"
proof -
  let ?n = "length (heap st)"
  let ?g0 = "\<lparr>parent = (case active_item st of None \<Rightarrow> ?n | Some p \<Rightarrow> p), page = 1,
             node_size = 0, g_uuid = gen ?n, g_name = PStr ''Search'', g_notes = PStr [],
             g_icon_id = 37, g_items = []\<rparr>"
  let ?st1 = "st\<lparr>heap := heap st @ [Group ?g0], search_group := Some ?n\<rparr>"
  have init: "KeeGroup_init gen (active_item st) (PStr ''Search'') (PStr [])
                (Some ''37'') (Some []) st = Inr (?n, st\<lparr>heap := heap st @ [Group ?g0]\<rparr>)"
    by (simp add: KeeGroup_init_def py_int_37 alloc_def Let_def)
  have d1: "deref ?st1 a = (if a = ?n then Some (Group ?g0) else deref st a)" for a
    by (auto simp: deref_def nth_append)
  have fr1: "\<forall>a<?n. deref ?st1 a = deref st a \<or>
                 (\<exists>g g'. deref st a = Some (Group g) \<and> deref ?st1 a = Some (Group g'))"
    by (simp add: d1)
  from frame_matched_list [OF fr1 ok]
  have ok1: "list_all (matched_ok ?st1) ms"
    and maps: "map (entry_items ?st1) (filter (is_entry ?st1) ms)
                 = map (entry_items st) (filter (is_entry st) ms)"
    by simp_all
  have sg1: "deref ?st1 ?n = Some (Group ?g0)" by (simp add: d1)
  from search_loop_spec [OF ok1 sg1, of gen] obtain st2 new where r:
    "search_loop gen ?n ms ?st1 = Inr st2"
    "length (heap ?st1) \<le> length (heap st2)"
    "\<forall>a<length (heap ?st1). a \<noteq> ?n \<longrightarrow> deref st2 a = deref ?st1 a"
    "deref st2 ?n = Some (Group (?g0\<lparr>g_items := g_items ?g0 @ new,
                                       node_size := node_size ?g0 + int (length new)\<rparr>))"
    "list_all (\<lambda>a. length (heap ?st1) \<le> a \<and> a < length (heap st2)) new"
    "map (entry_items st2) new = map (entry_items ?st1) (filter (is_entry ?st1) ms)"
    "st2\<lparr>heap := heap ?st1\<rparr> = ?st1"
    by blast
  let ?st' = "activate ?n st2"
  let ?g = "?g0\<lparr>g_items := g_items ?g0 @ new, node_size := node_size ?g0 + int (length new)\<rparr>"
  have run: "search limit gen word st = Inr ?st'"
    using ms init r(1) by (simp add: search_def)
  have sgf: "search_group st2 = Some ?n"
  proof -
    have "search_group (st2\<lparr>heap := heap ?st1\<rparr>) = search_group ?st1" using r(7) by simp
    then show ?thesis by simp
  qed
  have c2: "search_group ?st' = Some ?n" using sgf by (simp add: activate_def)
  have c3: "active_item ?st' = Some ?n" by (simp add: activate_def)
  have dd: "deref ?st' a = deref st2 a" for a by (simp add: deref_def activate_def)
  have hh: "heap ?st' = heap st2" by (simp add: activate_def)
  have c4: "deref ?st' ?n = Some (Group ?g)" using r(4) dd by simp
  have c5: "g_name ?g = PStr ''Search''" by simp
  have len: "?n < length (heap st2)" using r(2) by simp
  have "\<forall>i<?n. heap st2 ! i = heap st ! i"
  proof (intro allI impI)
    fix i assume i: "i < ?n"
    then have "deref st2 i = deref st i" using r(3) d1 by simp
    then show "heap st2 ! i = heap st ! i" using i len by (simp add: deref_def)
  qed
  then have c6: "take ?n (heap ?st') = heap st"
    using len hh by (intro nth_equalityI) simp_all
  have c7: "list_all (\<lambda>a. ?n < a \<and> a < length (heap ?st')) (g_items ?g)"
    using r(5) hh by (auto simp: list_all_iff)
  have "map (entry_items ?st') new = map (entry_items st2) new"
    by (simp add: entry_items_def dd)
  then have c8: "map (entry_items ?st') (g_items ?g) = map (entry_items st) (filter (is_entry st) ms)"
    using r(6) maps by simp
  from run c2 c3 c4 c5 c6 c7 c8 show ?thesis by blast
qed


text \<open>
  C3, as the code has it. When \<open>search_item\<close> returns the match list \<open>ms\<close> and the
  children of the matched entries are strings with key and value, \<open>search\<close> returns; the
  overlay is a new group named \<open>Search\<close>, it is the search group and the active node,
  and its children are new entries, one for every entry of \<open>ms\<close> in the order of \<open>ms\<close>,
  each with the child list of its original: the same addresses, so the very same string
  objects. The groups of \<open>ms\<close> are filtered out: the overlay holds no group.
\<close>

theorem overlay_holds_entries_of_matches:
  assumes "search_item limit word st = Inr ms"
    and "list_all (matched_ok st) ms"
  shows "\<exists>st' g. search limit gen word st = Inr st' \<and>
           search_group st' = Some (length (heap st)) \<and>
           active_item st' = Some (length (heap st)) \<and>
           deref st' (length (heap st)) = Some (Group g) \<and>
           g_name g = PStr ''Search'' \<and>
           list_all (\<lambda>a. length (heap st) < a) (g_items g) \<and>
           map (entry_items st') (g_items g) = map (entry_items st) (filter (is_entry st) ms)"
proof -
  from search_spec [OF assms, of gen] obtain st' g where r:
    "search limit gen word st = Inr st'"
    "search_group st' = Some (length (heap st))"
    "active_item st' = Some (length (heap st))"
    "deref st' (length (heap st)) = Some (Group g)"
    "g_name g = PStr ''Search''"
    "list_all (\<lambda>a. length (heap st) < a \<and> a < length (heap st')) (g_items g)"
    "map (entry_items st') (g_items g) = map (entry_items st) (filter (is_entry st) ms)"
    by blast
  from r(6) have "list_all (\<lambda>a. length (heap st) < a) (g_items g)"
    by (simp add: list_all_iff)
  with r show ?thesis by blast
qed

text \<open>
  The search for \<open>t\<close> in the example document matches the root group \<open>Root\<close> and the
  entry \<open>site\<close>, and ends in the state \<open>example_overlay\<close>.
\<close>

lemma example_search_item: "search_item 2 ''t'' example_doc = Inr [0, 1]"
  by (simp add: search_item_def example_doc_def deref_def name_matches_def obj_name_def
        obj_items_def obj_type_def lower_def lower_char_def numeral_2_eq_2)

lemma example_matched_ok: "list_all (matched_ok example_doc) [0, 1]"
  by (simp add: matched_ok_def example_doc_def deref_def is_plain_string_def)

lemma example_search: "search 2 example_gen ''t'' example_doc = Inr example_overlay"
  by (simp add: search_def example_search_item KeeGroup_init_def py_int_37 py_int_0 alloc_def
        Let_def example_gen_def example_overlay_def)
    (simp add: example_doc_def deref_def KeeEntry_init_def py_int_0 alloc_def Let_def
        append_def KeeEntry_append_def KeeGroup_append_def store_def activate_def
        example_gen_def)

theorem overlay_holds_entries_of_matches_witness:
  "search 2 example_gen ''t'' example_doc = Inr example_overlay \<and>
   search_group example_overlay = Some 4 \<and> active_item example_overlay = Some 4 \<and>
   map (entry_items example_overlay) (overlay_children example_overlay 4)
     = [entry_items example_doc 1]"
proof -
  from overlay_holds_entries_of_matches [OF example_search_item example_matched_ok,
      of example_gen]
  obtain st' g where r: "search 2 example_gen ''t'' example_doc = Inr st'"
    "search_group st' = Some (length (heap example_doc))"
    "active_item st' = Some (length (heap example_doc))"
    "deref st' (length (heap example_doc)) = Some (Group g)"
    "map (entry_items st') (g_items g)
       = map (entry_items example_doc) (filter (is_entry example_doc) [0, 1])"
    by blast
  have n: "length (heap example_doc) = 4" by (simp add: example_doc_def)
  have f: "filter (is_entry example_doc) [0, 1] = [1]"
    by (simp add: is_entry_def example_doc_def deref_def)
  have "st' = example_overlay" using r(1) example_search by simp
  then show ?thesis using r n f by (simp add: overlay_children_def)
qed

text \<open>
  C3 as stated fails on that search: the match list holds the group at address 0, and the
  only child of the overlay is the new entry at address 5; the matched group is not
  included.
\<close>

theorem overlay_omits_matched_group_counterexample:
  "search_item 2 ''t'' example_doc = Inr [0, 1] \<and>
   \<not> is_entry example_doc 0 \<and>
   search 2 example_gen ''t'' example_doc = Inr example_overlay \<and>
   search_group example_overlay = Some 4 \<and>
   overlay_children example_overlay 4 = [5] \<and>
   0 \<notin> set (overlay_children example_overlay 4)"
  by (simp add: example_search_item example_search)
    (simp add: is_entry_def overlay_children_def example_overlay_def example_doc_def deref_def)

text \<open>
  C4, as the code has it. Under the same conditions the strings reachable from the overlay
  are the strings of the matched entries of the document, address for address: every one
  of them was allocated before the search and is the object it was before. The overlay
  shares them with the document; it holds no copy.
\<close>

theorem overlay_strings_are_document_strings:
  assumes "search_item limit word st = Inr ms"
    and "list_all (matched_ok st) ms"
  shows "\<exists>st'. search limit gen word st = Inr st' \<and>
           search_group st' = Some (length (heap st)) \<and>
           overlay_strings st' (length (heap st)) = matched_strings st ms \<and>
           list_all (\<lambda>s. s < length (heap st) \<and> deref st' s = deref st s)
             (overlay_strings st' (length (heap st)))"
proof -
  from search_spec [OF assms, of gen] obtain st' g where r:
    "search limit gen word st = Inr st'"
    "search_group st' = Some (length (heap st))"
    "deref st' (length (heap st)) = Some (Group g)"
    "take (length (heap st)) (heap st') = heap st"
    "map (entry_items st') (g_items g) = map (entry_items st) (filter (is_entry st) ms)"
    by blast
  have "map (\<lambda>t. items_or_none (entry_items st' t)) (g_items g)
          = map items_or_none (map (entry_items st') (g_items g))"
    by simp
  also have "\<dots> = map items_or_none (map (entry_items st) (filter (is_entry st) ms))"
    using r(5) by simp
  also have "\<dots> = map (\<lambda>m. items_or_none (entry_items st m)) (filter (is_entry st) ms)"
    by simp
  finally have eq: "overlay_strings st' (length (heap st)) = matched_strings st ms"
    using r(3) by (simp add: overlay_strings_def matched_strings_def)
  have old: "s < length (heap st) \<and> deref st' s = deref st s"
    if "s \<in> set (matched_strings st ms)" for s
  proof -
    from that obtain m where m: "m \<in> set ms" "is_entry st m"
        "s \<in> set (items_or_none (entry_items st m))"
      by (auto simp: matched_strings_def)
    from assms(2) m(1) have "matched_ok st m" by (simp add: list_all_iff)
    then have "is_plain_string st s"
    proof (cases rule: matched_okE)
      case (1 gm)
      with m(2) show ?thesis by (simp add: is_entry_def)
    next
      case (2 en)
      with m(3) show ?thesis
        by (simp add: entry_items_def items_or_none_def list_all_iff)
    qed
    then obtain d where "deref st s = Some (EString d)" by (rule is_plain_stringE)
    then have lt: "s < length (heap st)" by (rule deref_Some_less)
    have "length (take (length (heap st)) (heap st')) = length (heap st)"
      using r(4) by simp
    then have le: "length (heap st) \<le> length (heap st')" by simp
    have "heap st' ! s = take (length (heap st)) (heap st') ! s"
      using lt by simp
    then have "heap st' ! s = heap st ! s" using r(4) by simp
    then have "deref st' s = deref st s" using lt le by (simp add: deref_def)
    with lt show ?thesis by simp
  qed
  then have "list_all (\<lambda>s. s < length (heap st) \<and> deref st' s = deref st s)
             (overlay_strings st' (length (heap st)))"
    using eq by (simp add: list_all_iff)
  with r(1,2) eq show ?thesis by blast
qed

theorem overlay_strings_are_document_strings_witness:
  "search 2 example_gen ''t'' example_doc = Inr example_overlay \<and>
   overlay_strings example_overlay 4 = [2, 3] \<and>
   deref example_overlay 2 = deref example_doc 2 \<and>
   deref example_overlay 3 = deref example_doc 3"
proof -
  from overlay_strings_are_document_strings [OF example_search_item example_matched_ok,
      of example_gen]
  obtain st' where r: "search 2 example_gen ''t'' example_doc = Inr st'"
    "overlay_strings st' (length (heap example_doc)) = matched_strings example_doc [0, 1]"
    "list_all (\<lambda>s. s < length (heap example_doc) \<and> deref st' s = deref example_doc s)
             (overlay_strings st' (length (heap example_doc)))"
    by blast
  have n: "length (heap example_doc) = 4" by (simp add: example_doc_def)
  have f: "matched_strings example_doc [0, 1] = [2, 3]"
    by (simp add: matched_strings_def is_entry_def entry_items_def items_or_none_def
        example_doc_def deref_def)
  have "st' = example_overlay" using r(1) example_search by simp
  then show ?thesis using r n f by simp
qed

text \<open>
  C4 as stated fails on the search for \<open>t\<close> in the example document: the strings
  reachable from the overlay are the objects at addresses 2 and 3, which are the children of
  the document's entry at address 1, and the object at address 2 is the one it was.
\<close>

theorem overlay_shares_strings_counterexample:
  "search 2 example_gen ''t'' example_doc = Inr example_overlay \<and>
   search_group example_overlay = Some 4 \<and>
   overlay_strings example_overlay 4 = [2, 3] \<and>
   entry_items example_doc 1 = Some [2, 3] \<and>
   deref example_overlay 2 = deref example_doc 2"
  by (simp add: example_search)
    (simp add: overlay_strings_def example_overlay_def example_doc_def deref_def
      entry_items_def items_or_none_def)

subsection \<open>Committing the draft of a group\<close>

text \<open>
  The drafts that \<open>start_add_edit\<close> builds on the example document: the one for editing
  the root group, filled from its name and notes, and the one for adding a group, whose
  key \<open>Name\<close> is present with the value \<open>None\<close>.
\<close>

lemma example_edit_draft:
  "start_add_edit None (Some 0) example_doc =
     Inr (example_doc\<lparr>add_edit_state := Some
            \<lparr>item_type = GROUP, process_type = EDIT,
             draft_fields = [(''Name'', PStr ''Root''), (''Notes'', PNone)],
             req_fields = [''Name''], current_field = ''Name''\<rparr>\<rparr>)"
  by (simp add: start_add_edit_def example_doc_def deref_def obj_type_def obj_name_def
        obj_notes_def)

lemma example_add_draft:
  "start_add_edit (Some GROUP) None example_doc =
     Inr (example_doc\<lparr>add_edit_state := Some
            \<lparr>item_type = GROUP, process_type = ADD,
             draft_fields = [(''Name'', PNone), (''Notes'', PNone)],
             req_fields = [''Name''], current_field = ''Name''\<rparr>\<rparr>)"
  by (simp add: start_add_edit_def)

lemma example_parent_group: "parent_group (example_doc\<lparr>add_edit_state := d\<rparr>) (PRef 0) = Some (Inr 0)"
  by (subst parent_group.simps) (simp add: example_doc_def deref_def obj_type_def)

lemma example_active: "active_item example_doc = Some 0"
  by (simp add: example_doc_def)

text \<open>
  C5 on the example document. Edit: the draft of the root group gets the name \<open>Vault\<close>
  and the notes \<open>new\<close>; after \<open>finish_add_edit\<close> the group is named \<open>Vault\<close> and its
  notes are what they were (\<open>None\<close>), because the loop looks for the key \<open>Note\<close> and
  the draft's key is \<open>Notes\<close>. Add: with \<open>Name\<close> never set, the new group at address 4
  has the name \<open>None\<close>, not the string \<open>"None"\<close>, because the key \<open>Name\<close> is always in
  the draft and its value replaces the default; its notes are the constructor's default.
\<close>

theorem finish_group_edit_drops_notes:
  "finish_add_edit 1 example_gen True
     (example_doc\<lparr>add_edit_state := Some
        (set_cur_field_value (PStr ''new'') (set_cur_field ''Notes''
          (set_cur_field_value (PStr ''Vault'')
             \<lparr>item_type = GROUP, process_type = EDIT,
              draft_fields = [(''Name'', PStr ''Root''), (''Notes'', PNone)],
              req_fields = [''Name''], current_field = ''Name''\<rparr>)))\<rparr>)
   = Some (Inr (store example_doc 0
        (Group \<lparr>parent = 0, page = 1, node_size = 1, g_uuid = ''R'', g_name = PStr ''Vault'',
                g_notes = PNone, g_icon_id = 37, g_items = [1]\<rparr>))) \<and>
   finish_add_edit 1 example_gen True
     (example_doc\<lparr>add_edit_state := Some
        \<lparr>item_type = GROUP, process_type = ADD,
         draft_fields = [(''Name'', PNone), (''Notes'', PNone)],
         req_fields = [''Name''], current_field = ''Name''\<rparr>\<rparr>)
   = Some (Inr (example_doc\<lparr>heap := (heap example_doc)
        [0 := Group \<lparr>parent = 0, page = 1, node_size = 2, g_uuid = ''R'', g_name = PStr ''Root'',
                g_notes = PNone, g_icon_id = 37, g_items = [1, 4]\<rparr>] @
        [Group \<lparr>parent = 0, page = 1, node_size = 0, g_uuid = ''fresh'', g_name = PNone,
                g_notes = PStr [], g_icon_id = 37, g_items = []\<rparr>]\<rparr>))"
proof
  show "finish_add_edit 1 example_gen True
     (example_doc\<lparr>add_edit_state := Some
        (set_cur_field_value (PStr ''new'') (set_cur_field ''Notes''
          (set_cur_field_value (PStr ''Vault'')
             \<lparr>item_type = GROUP, process_type = EDIT,
              draft_fields = [(''Name'', PStr ''Root''), (''Notes'', PNone)],
              req_fields = [''Name''], current_field = ''Name''\<rparr>)))\<rparr>)
   = Some (Inr (store example_doc 0
        (Group \<lparr>parent = 0, page = 1, node_size = 1, g_uuid = ''R'', g_name = PStr ''Vault'',
                g_notes = PNone, g_icon_id = 37, g_items = [1]\<rparr>)))"
    by (simp add: finish_add_edit_def set_cur_field_def set_cur_field_value_def
        example_active example_parent_group)
      (simp add: example_doc_def commit_def get_rawstrings_def set_name_def deref_def
        store_def activate_def)
next
  show "finish_add_edit 1 example_gen True
     (example_doc\<lparr>add_edit_state := Some
        \<lparr>item_type = GROUP, process_type = ADD,
         draft_fields = [(''Name'', PNone), (''Notes'', PNone)],
         req_fields = [''Name''], current_field = ''Name''\<rparr>\<rparr>)
   = Some (Inr (example_doc\<lparr>heap := (heap example_doc)
        [0 := Group \<lparr>parent = 0, page = 1, node_size = 2, g_uuid = ''R'', g_name = PStr ''Root'',
                g_notes = PNone, g_icon_id = 37, g_items = [1, 4]\<rparr>] @
        [Group \<lparr>parent = 0, page = 1, node_size = 0, g_uuid = ''fresh'', g_name = PNone,
                g_notes = PStr [], g_icon_id = 37, g_items = []\<rparr>]\<rparr>))"
    by (simp add: finish_add_edit_def example_active example_parent_group)
      (simp add: example_doc_def commit_def get_rawstrings_def KeeGroup_init_def py_int_37
        alloc_def Let_def append_def KeeGroup_append_def deref_def store_def activate_def
        example_gen_def)
qed

subsection \<open>The round trip through XML\<close>

text \<open>\<open>int(str(i))\<close> is \<open>i\<close>: the icon id survives being written and read.\<close>

lemma digit_char_cases:
  assumes "d < 10"
  shows "d = 0 \<or> d = 1 \<or> d = 2 \<or> d = 3 \<or> d = 4 \<or> d = 5 \<or> d = 6 \<or> d = 7 \<or> d = 8 \<or> d = (9::nat)"
  using assms by arith

lemma digit_val_char: "d < 10 \<Longrightarrow> digit_val (digit_char d) = Some d"
  using digit_char_cases [of d] by (auto simp: digit_val_def digit_char_def)

lemma digit_char_plain:
  "d < 10 \<Longrightarrow> digit_char d \<noteq> CHR ''_'' \<and> digit_char d \<noteq> CHR ''-'' \<and>
     digit_char d \<noteq> CHR ''+'' \<and> \<not> is_space (digit_char d)"
  using digit_char_cases [of d] by (auto simp: digit_char_def is_space_def)

lemma digits_nonempty: "digits n \<noteq> []"
  by (subst digits.simps) simp

lemma hd_digits: "\<exists>d<10. hd (digits n) = digit_char d"
proof (induction n rule: digits.induct)
  case (1 n)
  show ?case
  proof (cases "n < 10")
    case True
    then show ?thesis by (subst digits.simps) auto
  next
    case False
    with 1 obtain d where "d < 10" "hd (digits (n div 10)) = digit_char d" by auto
    then show ?thesis using False digits_nonempty [of "n div 10"]
      by (subst digits.simps) auto
  qed
qed

lemma last_digits: "last (digits n) = digit_char (n mod 10)"
  by (subst digits.simps) simp

lemma nat_of_digits_digits:
  "\<exists>k. nat_of_digits acc b (digits n @ rest) = nat_of_digits (acc * 10 ^ k + n) True rest"
proof (induction n arbitrary: acc b rest rule: digits.induct)
  case (1 n)
  show ?case
  proof (cases "n < 10")
    case True
    then have "nat_of_digits acc b (digits n @ rest) = nat_of_digits (acc * 10 ^ 1 + n) True rest"
      using digit_val_char [of n] digit_char_plain [of n]
      by (subst digits.simps) (simp add: mult.commute)
    then show ?thesis by blast
  next
    case False
    from 1 [OF False, of acc b "digit_char (n mod 10) # rest"] obtain k where
      k: "nat_of_digits acc b (digits (n div 10) @ digit_char (n mod 10) # rest) =
            nat_of_digits (acc * 10 ^ k + n div 10) True (digit_char (n mod 10) # rest)"
      by blast
    have m: "n mod 10 < 10" by simp
    have "nat_of_digits acc b (digits n @ rest) =
            nat_of_digits (10 * (acc * 10 ^ k + n div 10) + n mod 10) True rest"
      using False k digit_val_char [OF m] digit_char_plain [OF m]
      by (subst digits.simps) simp
    moreover have "10 * (acc * 10 ^ k + n div 10) + n mod 10 = acc * 10 ^ (Suc k) + n"
      by (simp add: algebra_simps)
    ultimately show ?thesis by metis
  qed
qed

lemma nat_of_digits_exact: "nat_of_digits 0 False (digits n) = Some n"
  using nat_of_digits_digits [of 0 False n "[]"] by auto

lemma strip_plain:
  assumes "s \<noteq> []" "\<not> is_space (hd s)" "\<not> is_space (last s)"
  shows "strip s = s"
proof -
  have "dropWhile is_space s = s"
    using assms(1,2) by (cases s) simp_all
  moreover have "dropWhile is_space (rev s) = rev s"
    using assms(1,3) by (cases "rev s") (simp_all add: hd_rev [symmetric])
  ultimately show ?thesis by (simp add: strip_def)
qed

lemma strip_digits: "strip (digits n) = digits n"
proof -
  obtain d where d: "d < 10" "hd (digits n) = digit_char d"
    using hd_digits by blast
  have "\<not> is_space (hd (digits n))" using d digit_char_plain by simp
  moreover have "\<not> is_space (last (digits n))"
    using digit_char_plain [of "n mod 10"] by (simp add: last_digits)
  ultimately show ?thesis using digits_nonempty by (intro strip_plain) simp_all
qed

lemma py_int_py_str: "py_int (Some (py_str i)) = Inr i"
proof (cases "i < 0")
  case False
  obtain d where d: "d < 10" "hd (digits (nat i)) = digit_char d"
    using hd_digits by blast
  then have h: "hd (digits (nat i)) \<noteq> CHR ''-''" "hd (digits (nat i)) \<noteq> CHR ''+''"
    using digit_char_plain by simp_all
  show ?thesis using False h
    by (simp add: py_int_def py_str_def strip_digits nat_of_digits_exact digits_nonempty Let_def)
next
  case True
  have "\<not> is_space (CHR ''-'')" by (simp add: is_space_def)
  moreover have "\<not> is_space (last (CHR ''-'' # digits (nat (- i))))"
    using digit_char_plain [of "nat (- i) mod 10"] digits_nonempty
    by (simp add: last_digits)
  ultimately have "strip (CHR ''-'' # digits (nat (- i))) = CHR ''-'' # digits (nat (- i))"
    by (intro strip_plain) simp_all
  then show ?thesis using True
    by (simp add: py_int_def py_str_def nat_of_digits_exact Let_def)
qed

lemma py_str_nonempty: "py_str i \<noteq> []"
  by (simp add: py_str_def digits_nonempty)


text \<open>
  The texts that the encoder writes on its own account are accepted: a string of ASCII
  characters none of which is a control character, so the decimal numeral of an int.
\<close>

lemma xml_compatible_ascii:
  "\<forall>c\<in>set s. (of_char c :: nat) < 128 \<and> xml_char_ch (of_char c) \<Longrightarrow> xml_compatible s"
  by (induction s rule: xml_compatible.induct) auto

lemma digit_char_ascii:
  "d < 10 \<Longrightarrow> (of_char (digit_char d) :: nat) < 128 \<and> xml_char_ch (of_char (digit_char d))"
  using digit_char_cases [of d] by (auto simp: digit_char_def xml_char_ch_def)

lemma digits_ascii:
  "\<forall>c\<in>set (digits n). (of_char c :: nat) < 128 \<and> xml_char_ch (of_char c)"
proof (induction n rule: digits.induct)
  case (1 n)
  show ?case
  proof (cases "n < 10")
    case True
    then show ?thesis using digit_char_ascii [of n] by (subst digits.simps) simp
  next
    case False
    have "n mod 10 < 10" by simp
    then show ?thesis using False 1 digit_char_ascii [of "n mod 10"]
      by (subst digits.simps) auto
  qed
qed

lemma xml_compatible_py_str: "xml_compatible (py_str i)"
  using digits_ascii
  by (intro xml_compatible_ascii) (auto simp: py_str_def xml_char_ch_def)








text \<open>
  Reading back what was written, first for an entry, then for the children of a group,
  then for a group by induction on the tree.
\<close>

lemma tag_reparse [simp]: "tag (reparse x) = tag x"
  by (cases x) simp
























text \<open>
  It fails, too, on the document whose entry has the empty title: the title and the name
  of the entry are \<open>""\<close> before and \<open>None\<close> after encoding and decoding.
\<close>

lemma roundtrip_empty_title_reads_none:
  "ebind (generate_root example_root_obj example_now example_blank)
     (init_root_group example_gen True) = Inr example_blank_read_back \<and>
   map t_name (t_items example_blank) = [Some []] \<and>
   map t_name (t_items example_blank_read_back) = [None] \<and>
   map t_strings (t_items example_blank)
     = [[(Some ''Title'', Some []), (Some ''Password'', Some ''x'')]] \<and>
   map t_strings (t_items example_blank_read_back)
     = [[(Some ''Title'', None), (Some ''Password'', Some ''x'')]]"
  by (simp add: example_blank_def example_blank_read_back_def example_root_obj_def
      example_now_def generate_root_def init_root_group_def text_element_def set_text_def
      times_xml_def string_xml_def autotype_xml_def xml_char_ch_def xml_compatible_py_str
      findall_def child_text_def child_def
      decode_entry_def decode_autotype_def py_int_py_str py_str_nonempty uuid_or_gen_def)

text \<open>
  A title with a vertical tab is a text that the XML library refuses: the document is not
  encoded.
\<close>

lemma encode_refuses_control_character:
  "generate_root example_root_obj example_now example_control = Inl ValueError"
  by (simp add: example_control_def example_root_obj_def example_now_def generate_root_def
      text_element_def set_text_def times_xml_def string_xml_def autotype_xml_def
      xml_char_ch_def xml_compatible_py_str findall_def)

text \<open>
  The identifiers have to be there: an empty identifier is read back as no text, and the
  constructor generates a new one.
\<close>

lemma roundtrip_empty_identifier_generated:
  "ebind (generate_root example_root_obj example_now example_no_id)
     (init_root_group example_gen True) = Inr (TGroup ''fresh'' (Some ''Root'') None 37 [])"
  by (simp add: example_no_id_def example_root_obj_def example_gen_def
      example_now_def generate_root_def init_root_group_def text_element_def set_text_def
      times_xml_def xml_char_ch_def xml_compatible_py_str
      findall_def child_text_def child_def py_int_py_str py_str_nonempty uuid_or_gen_def)

end
